theory Spec2Isabelle
  imports Main "HOL-Library.AList" "HOL-Library.Word"
begin

section \<open>Coordination relay (server/routes.ts)\<close>

text \<open>
  A socket accepted by the WebSocket server is identified by a number. A frame is
  \<open>JSON.parse\<close>d and dispatched on \<open>message.type\<close>; the parsed frame is a value of
  \<open>client_msg\<close>, and \<open>None\<close> stands for a frame on which \<open>JSON.parse\<close> throws.
  Opaque payloads (\<open>signal\<close>, \<open>offer\<close>, \<open>answer\<close>, \<open>candidate\<close>) are strings.
  \<open>console.log\<close> and \<open>console.error\<close> calls are not part of the model.
\<close>

type_synonym ws = nat

datatype client_msg =
    Register string "string option"
  | Signal string string string
  | Offer string string string string
  | Answer string string string
  | IceCandidate string string string
  | StatusUpdate string
  | Ping
  | OtherType string

datatype server_msg =
    Registered string
  | SignalFwd string string
  | OfferFwd string string string
  | AnswerFwd string string
  | IceCandidateFwd string string
  | PeerStatus "string option" string nat
  | Pong
  | Error string

record PeerConnection =
  pc_peerId :: string
  pc_ws :: ws
  pc_displayName :: "string option"

text \<open>
  \<open>peers\<close> is the module-level \<open>Map\<close>; a JavaScript \<open>Map\<close> iterates in insertion
  order, \<open>set\<close> on a present key keeps the key's position and \<open>delete\<close> removes it, which
  is what \<open>AList.update\<close> and \<open>AList.delete\<close> do on an association list.
  \<open>currentPeerId\<close> is the variable \<open>let currentPeerId\<close> of each connection's closure.
\<close>

record relay =
  peers :: "(string \<times> PeerConnection) list"
  currentPeerId :: "ws \<Rightarrow> string option"

definition relay_init :: relay where
  "relay_init = \<lparr>peers = [], currentPeerId = (\<lambda>_. None)\<rparr>"

text \<open>
  The test shared by the four forwarding cases: \<open>peers.get(to)\<close>, then
  \<open>targetPeer && targetPeer.ws.readyState === WebSocket.OPEN\<close>. \<open>is_open\<close> reads the
  \<open>readyState\<close> of a socket at the time of the call.
\<close>

definition target_available :: "(ws \<Rightarrow> bool) \<Rightarrow> relay \<Rightarrow> string \<Rightarrow> PeerConnection option" where
  "target_available is_open r target =
     (case map_of (peers r) target of
        None \<Rightarrow> None
      | Some t \<Rightarrow> if is_open (pc_ws t) then Some t else None)"

text \<open>
  The handler of \<open>ws.on('message')\<close> for the socket \<open>s\<close>; \<open>now\<close> is \<open>Date.now()\<close>.
  The result is the new state and the list of \<open>ws.send\<close> calls made, each as the socket
  written to and the message.
\<close>

fun on_message ::
  "(ws \<Rightarrow> bool) \<Rightarrow> nat \<Rightarrow> relay \<Rightarrow> ws \<Rightarrow> client_msg option \<Rightarrow> relay \<times> (ws \<times> server_msg) list"
where
  "on_message is_open now r s None = (r, [(s, Error ''Invalid message format'')])"
| "on_message is_open now r s (Some (Register pid dn)) =
     (r\<lparr>peers := AList.update pid \<lparr>pc_peerId = pid, pc_ws = s, pc_displayName = dn\<rparr> (peers r),
        currentPeerId := (currentPeerId r)(s := Some pid)\<rparr>,
      [(s, Registered pid)])"
| "on_message is_open now r s (Some (Signal target sender signalData)) =
     (case target_available is_open r target of
        Some t \<Rightarrow> (r, [(pc_ws t, SignalFwd sender signalData)])
      | None \<Rightarrow> (r, [(s, Error ''Target peer not available'')]))"
| "on_message is_open now r s (Some (Offer target sender offer callType)) =
     (case target_available is_open r target of
        Some t \<Rightarrow> (r, [(pc_ws t, OfferFwd sender offer callType)])
      | None \<Rightarrow> (r, []))"
| "on_message is_open now r s (Some (Answer target sender answer)) =
     (case target_available is_open r target of
        Some t \<Rightarrow> (r, [(pc_ws t, AnswerFwd sender answer)])
      | None \<Rightarrow> (r, []))"
| "on_message is_open now r s (Some (IceCandidate target sender candidate)) =
     (case target_available is_open r target of
        Some t \<Rightarrow> (r, [(pc_ws t, IceCandidateFwd sender candidate)])
      | None \<Rightarrow> (r, []))"
| "on_message is_open now r s (Some (StatusUpdate status)) =
     (r, map (\<lambda>(pid, p). (pc_ws p, PeerStatus (currentPeerId r s) status now))
           (filter (\<lambda>(pid, p). Some pid \<noteq> currentPeerId r s \<and> is_open (pc_ws p)) (peers r)))"
| "on_message is_open now r s (Some Ping) = (r, [(s, Pong)])"
| "on_message is_open now r s (Some (OtherType t)) = (r, [])"

text \<open>
  The handler of \<open>ws.on('close')\<close>. The guard \<open>if (currentPeerId)\<close> is JavaScript
  truthiness: it fails for \<open>null\<close> and for the empty string.
\<close>

definition on_close ::
  "(ws \<Rightarrow> bool) \<Rightarrow> nat \<Rightarrow> relay \<Rightarrow> ws \<Rightarrow> relay \<times> (ws \<times> server_msg) list"
where
  "on_close is_open now r s =
     (case currentPeerId r s of
        None \<Rightarrow> (r, [])
      | Some pid \<Rightarrow>
          if pid = [] then (r, [])
          else
            (let r' = r\<lparr>peers := AList.delete pid (peers r)\<rparr>
             in (r', map (\<lambda>(k, p). (pc_ws p, PeerStatus (Some pid) ''offline'' now))
                       (filter (\<lambda>(k, p). is_open (pc_ws p)) (peers r')))))"


text \<open>
  What happens at the relay over time: a frame arrives on a socket, or a socket closes.
  Each event carries the \<open>readyState\<close> of the sockets and \<open>Date.now()\<close> as they are when
  its handler runs. \<open>run_relay\<close> is the state after a sequence of events, and
  \<open>registers_on s\<close> holds of a \<open>register\<close> frame that arrives on the socket \<open>s\<close>.
\<close>

datatype relay_event =
    Frame "ws \<Rightarrow> bool" nat ws "client_msg option"
  | Closed "ws \<Rightarrow> bool" nat ws

fun relay_step :: "relay \<Rightarrow> relay_event \<Rightarrow> relay \<times> (ws \<times> server_msg) list" where
  "relay_step r (Frame is_open now s parsed) = on_message is_open now r s parsed"
| "relay_step r (Closed is_open now s) = on_close is_open now r s"

fun run_relay :: "relay \<Rightarrow> relay_event list \<Rightarrow> relay" where
  "run_relay r [] = r"
| "run_relay r (e # es) = run_relay (fst (relay_step r e)) es"

fun registers_on :: "ws \<Rightarrow> relay_event \<Rightarrow> bool" where
  "registers_on s (Frame is_open now s' (Some (Register pid dn))) = (s' = s)"
| "registers_on s e = False"

section \<open>Transport manager (class WebRTCManager)\<close>

text \<open>
  The payload \<open>data\<close> of an envelope is typed \<open>any\<close>. The model has one constructor for
  each shape that the sending code builds; reading a property that a shape does not have
  gives \<open>undefined\<close>, which the accessors below return as \<open>None\<close>.
\<close>

datatype payload =
    ChatData "string option" "string option"
  | FileMetaData string nat string nat "string option"
  | FileChunkData string nat "nat list"
  | ContactInfoData "string option" "string option"
  | NoData

fun data_fileId :: "payload \<Rightarrow> string option" where
  "data_fileId (FileChunkData fileId chunkIndex chunkData) = Some fileId"
| "data_fileId _ = None"

fun data_chunkIndex :: "payload \<Rightarrow> nat option" where
  "data_chunkIndex (FileChunkData fileId chunkIndex chunkData) = Some chunkIndex"
| "data_chunkIndex _ = None"

fun data_chunkData :: "payload \<Rightarrow> nat list option" where
  "data_chunkData (FileChunkData fileId chunkIndex chunkData) = Some chunkData"
| "data_chunkData _ = None"

fun data_chunks :: "payload \<Rightarrow> nat option" where
  "data_chunks (FileMetaData name sz mimeType chunks preview) = Some chunks"
| "data_chunks _ = None"

fun data_name :: "payload \<Rightarrow> string option" where
  "data_name (FileMetaData name sz mimeType chunks preview) = Some name"
| "data_name _ = None"

fun data_mimeType :: "payload \<Rightarrow> string option" where
  "data_mimeType (FileMetaData name sz mimeType chunks preview) = Some mimeType"
| "data_mimeType _ = None"

fun data_peerId :: "payload \<Rightarrow> string option" where
  "data_peerId (ContactInfoData peerId displayName) = peerId"
| "data_peerId _ = None"

fun data_displayName :: "payload \<Rightarrow> string option" where
  "data_displayName (ContactInfoData peerId displayName) = displayName"
| "data_displayName _ = None"

text \<open>JavaScript truthiness of a string-valued property: present and not empty.\<close>

fun truthy :: "string option \<Rightarrow> bool" where
  "truthy None = False"
| "truthy (Some s) = (s \<noteq> [])"

record WebRTCMessage =
  msg_type :: string
  messageId :: string
  timestamp :: nat
  data :: payload

datatype PeerConnectionStatus = Disconnected | Connecting | Connected | Failed

text \<open>
  A \<open>DataConnection\<close> of the transport library: its \<open>peer\<close>, its \<open>open\<close> flag as read
  at the time of the call, and the identity of the object.
\<close>

record conn =
  conn_peer :: string
  conn_open :: bool
  conn_id :: nat

record contact =
  contact_id :: string
  contact_peerId :: string
  contact_displayName :: string
  contact_avatar :: "string option"
  contact_status :: string
  contact_lastSeen :: nat
  contact_addedAt :: nat
  contact_unreadCount :: nat

text \<open>
  The fields of the manager that the modelled methods read or write. Handlers are
  functions in the source; here a handler is the number that identifies it, and calling
  it is recorded as an effect. \<open>peer\<close> says whether \<open>this.peer\<close> is set.
\<close>

record manager =
  connections :: "string \<rightharpoonup> conn"
  reconnectAttempts :: nat
  messageHandlers :: "string \<rightharpoonup> nat"
  statusHandlers :: "string \<rightharpoonup> nat"
  peer :: bool

text \<open>The two private fields that are initialised once and never assigned again.\<close>

definition maxReconnectAttempts :: nat where
  "maxReconnectAttempts = 5"

definition reconnectDelay :: nat where
  "reconnectDelay = 1000"

definition new_manager :: manager where
  "new_manager = \<lparr>connections = Map.empty, reconnectAttempts = 0,
     messageHandlers = Map.empty, statusHandlers = Map.empty, peer = False\<rparr>"

text \<open>
  \<open>attemptReconnect\<close> returns the new state and the delay of the timer it sets with
  \<open>setTimeout\<close>, or \<open>None\<close> when it sets none.
\<close>

definition attemptReconnect :: "manager \<Rightarrow> manager \<times> nat option" where
  "attemptReconnect m =
     (if reconnectAttempts m < maxReconnectAttempts
      then (let m' = m\<lparr>reconnectAttempts := reconnectAttempts m + 1\<rparr>
            in (m', Some (reconnectDelay * reconnectAttempts m')))
      else (m, None))"

text \<open>
  What \<open>initializeWebSocket\<close> wires to the signaling socket: \<open>onopen\<close> resets the counter,
  \<open>onclose\<close> calls \<open>attemptReconnect\<close>, and so does the \<open>catch\<close> branch when
  \<open>new WebSocket\<close> throws. \<open>run_ws\<close> feeds a sequence of these events and collects the
  delays of the timers set.
\<close>

datatype ws_event = WsOpen | WsClose | WsCreateThrows

fun ws_step :: "manager \<Rightarrow> ws_event \<Rightarrow> manager \<times> nat option" where
  "ws_step m WsOpen = (m\<lparr>reconnectAttempts := 0\<rparr>, None)"
| "ws_step m WsClose = attemptReconnect m"
| "ws_step m WsCreateThrows = attemptReconnect m"

fun run_ws :: "manager \<Rightarrow> ws_event list \<Rightarrow> manager \<times> nat list" where
  "run_ws m [] = (m, [])"
| "run_ws m (e # es) =
     (let (m1, d) = ws_step m e; (m2, ds) = run_ws m1 es
      in (m2, (case d of None \<Rightarrow> [] | Some t \<Rightarrow> [t]) @ ds))"

text \<open>\<open>setupConnection\<close>: the map is written only when the peer has no entry yet.\<close>

definition setupConnection :: "manager \<Rightarrow> conn \<Rightarrow> manager" where
  "setupConnection m c =
     (if connections m (conn_peer c) = None
      then m\<lparr>connections := (connections m)(conn_peer c \<mapsto> c)\<rparr>
      else m)"

text \<open>
  \<open>connectToPeer\<close>. The argument \<open>lib\<close> is what \<open>this.peer.connect\<close> does: it throws
  (\<open>Inl\<close>) or returns a new channel (\<open>Inr\<close> with the identity of the new object), which is
  not open yet. The result is the new state, the state of the returned promise when the
  call returns, and the effects in order: calls of the status handler registered under
  \<open>contact.id\<close>, and channels created.
\<close>

datatype promise_state = Resolved | Rejected string | Pending

datatype mgr_effect = StatusCallback nat PeerConnectionStatus | ChannelCreated conn

definition status_cb :: "manager \<Rightarrow> string \<Rightarrow> PeerConnectionStatus \<Rightarrow> mgr_effect list" where
  "status_cb m cid st =
     (case statusHandlers m cid of None \<Rightarrow> [] | Some h \<Rightarrow> [StatusCallback h st])"

definition connectToPeer ::
  "manager \<Rightarrow> contact \<Rightarrow> string + nat \<Rightarrow> manager \<times> promise_state \<times> mgr_effect list"
where
  "connectToPeer m c lib =
     (if connections m (contact_peerId c) \<noteq> None then (m, Resolved, [])
      else if \<not> peer m then (m, Rejected ''PeerJS not initialized'', [])
      else
        (case lib of
           Inl err \<Rightarrow>
             (m, Rejected err,
              status_cb m (contact_id c) Connecting @ status_cb m (contact_id c) Failed)
         | Inr obj \<Rightarrow>
             (let cn = \<lparr>conn_peer = contact_peerId c, conn_open = False, conn_id = obj\<rparr>;
                  m1 = setupConnection m cn;
                  m2 = m1\<lparr>connections := (connections m1)(contact_peerId c \<mapsto> cn)\<rparr>
              in (m2, Pending, status_cb m (contact_id c) Connecting @ [ChannelCreated cn]))))"

text \<open>Repeated calls for one contact, each with what the library does on that call.\<close>

fun connectToPeer_many ::
  "manager \<Rightarrow> contact \<Rightarrow> (string + nat) list \<Rightarrow> manager \<times> mgr_effect list"
where
  "connectToPeer_many m c [] = (m, [])"
| "connectToPeer_many m c (lib # libs) =
     (let (m1, p, es) = connectToPeer m c lib; (m2, es') = connectToPeer_many m1 c libs
      in (m2, es @ es'))"

fun is_ChannelCreated :: "mgr_effect \<Rightarrow> bool" where
  "is_ChannelCreated (ChannelCreated cn) = True"
| "is_ChannelCreated _ = False"

text \<open>
  \<open>handlePeerData\<close>. \<open>parse\<close> is \<open>JSON.parse\<close> followed by the cast to \<open>WebRTCMessage\<close>,
  \<open>None\<close> where it throws; the \<open>catch\<close> only logs. The result is the list of handler
  calls made, each as the handler and the message passed to it.
\<close>

datatype raw_data = RawString string | RawObject WebRTCMessage

definition handlePeerData ::
  "(string \<Rightarrow> WebRTCMessage option) \<Rightarrow> manager \<Rightarrow> string \<Rightarrow> raw_data \<Rightarrow> (nat \<times> WebRTCMessage) list"
where
  "handlePeerData parse m peerId raw =
     (case (case raw of RawString s \<Rightarrow> parse s | RawObject msg \<Rightarrow> Some msg) of
        None \<Rightarrow> []
      | Some message \<Rightarrow>
          (case messageHandlers m peerId of
             None \<Rightarrow> []
           | Some handler \<Rightarrow> [(handler, message)]))"


definition onStatusChange :: "manager \<Rightarrow> string \<Rightarrow> nat \<Rightarrow> manager" where
  "onStatusChange m contactId handler =
     m\<lparr>statusHandlers := (statusHandlers m)(contactId \<mapsto> handler)\<rparr>"

text \<open>
  \<open>sendMessage\<close>. \<open>send_throws\<close> says whether \<open>conn.send(message)\<close> throws on this call.
  The result is the new state, what the method does (\<open>Inr b\<close>: it returns \<open>b\<close>;
  \<open>Inl e\<close>: it throws \<open>e\<close>) and the messages handed to a channel, each with the identity
  of the channel.
\<close>

definition conn_send :: "bool \<Rightarrow> conn \<Rightarrow> WebRTCMessage \<Rightarrow> string + (nat \<times> WebRTCMessage)" where
  "conn_send send_throws cn message =
     (if send_throws then Inl ''send failed'' else Inr (conn_id cn, message))"

definition sendMessage ::
  "manager \<Rightarrow> string \<Rightarrow> WebRTCMessage \<Rightarrow> bool \<Rightarrow>
     manager \<times> (string + bool) \<times> (nat \<times> WebRTCMessage) list"
where
  "sendMessage m peerId message send_throws =
     (case connections m peerId of
        None \<Rightarrow> (m, Inr False, [])
      | Some cn \<Rightarrow>
          if conn_open cn then
            (case conn_send send_throws cn message of
               Inr sent \<Rightarrow> (m, Inr True, [sent])
             | Inl err \<Rightarrow> (m\<lparr>connections := (connections m)(peerId := None)\<rparr>, Inr False, []))
          else (m\<lparr>connections := (connections m)(peerId := None)\<rparr>, Inr False, []))"

subsection \<open>Global handlers\<close>







section \<open>Chat window: receiving a file (ChatWindow.setupPeerConnection)\<close>

text \<open>
  \<open>fileChunksRef\<close> maps a file id to a transfer: the metadata as received, the slots
  (\<open>None\<close> is the \<open>null\<close> of an empty slot) and the count of slots filled.
\<close>

type_synonym byte = "8 word"

record fileTransfer =
  ft_meta :: payload
  ft_chunks :: "byte list option list"
  receivedCount :: nat

text \<open>
  \<open>new Uint8Array(data.chunkData)\<close>: each number is reduced modulo 256, and a missing
  property gives the empty array.
\<close>

definition to_uint8 :: "nat list option \<Rightarrow> byte list" where
  "to_uint8 d = (case d of None \<Rightarrow> [] | Some xs \<Rightarrow> map of_nat xs)"

text \<open>
  The test \<open>fileTransfer.chunks[chunkIndex] === null\<close> and the two assignments under it.
  Reading the array out of range, or at a missing index, gives \<open>undefined\<close>, which is not
  \<open>null\<close>: nothing is stored then.
\<close>

definition store_chunk :: "fileTransfer \<Rightarrow> nat option \<Rightarrow> byte list \<Rightarrow> fileTransfer" where
  "store_chunk ft idx chunkData =
     (case idx of
        None \<Rightarrow> ft
      | Some i \<Rightarrow>
          if i < length (ft_chunks ft) \<and> ft_chunks ft ! i = None
          then ft\<lparr>ft_chunks := (ft_chunks ft)[i := Some chunkData],
                  receivedCount := receivedCount ft + 1\<rparr>
          else ft)"

text \<open>The bytes of \<open>completeFile\<close>: the slots written one after the other in index order.\<close>

definition completeFile :: "byte list option list \<Rightarrow> byte list" where
  "completeFile slots = concat (map (\<lambda>c. case c of None \<Rightarrow> [] | Some b \<Rightarrow> b) slots)"

text \<open>
  The effects of the handler. On completion the handler builds the blob of
  \<open>completeFile\<close>, its object URL and the message (id \<open>fileId\<close>, content \<open>meta.name\<close>,
  type \<open>getFileType(meta.mimeType)\<close>, the timestamp of the envelope), and is suspended at
  \<open>await saveMessage(receivedMessage)\<close>: \<open>FileReceived fileId meta bytes t\<close> stands for
  this part (lines 559 to 578). What follows the \<open>await\<close> (lines 579 to 583: the message
  is appended, the transfer is deleted from the map, the notification is shown) runs
  when the call is resumed, and is recorded as \<open>FileShown fileId\<close>.
  \<open>getFileType\<close> calls \<open>startsWith\<close> on its argument, so a stored metadata without
  \<open>mimeType\<close> makes the handler throw before the message is built; the transfer then
  stays in the map.
\<close>

datatype rx_effect =
    ChatReceived WebRTCMessage
  | FileReceived string payload "byte list" nat
  | MissingChunks string
  | Threw string
  | FileShown string

text \<open>The chunk branch, up to the \<open>await\<close>.\<close>

definition on_chunk ::
  "(string \<rightharpoonup> fileTransfer) \<Rightarrow> string \<Rightarrow> WebRTCMessage \<Rightarrow>
     (string \<rightharpoonup> fileTransfer) \<times> rx_effect list"
where
  "on_chunk sessions fileId msg =
     (case sessions fileId of
        None \<Rightarrow> (sessions, [])
      | Some ft0 \<Rightarrow>
          (let ft = store_chunk ft0 (data_chunkIndex (data msg)) (to_uint8 (data_chunkData (data msg)));
               sessions1 = sessions(fileId \<mapsto> ft)
           in if receivedCount ft = length (ft_chunks ft) then
                if list_ex (\<lambda>c. c = None) (ft_chunks ft)
                then (sessions1(fileId := None), [MissingChunks fileId])
                else
                  (case data_mimeType (ft_meta ft) of
                     None \<Rightarrow> (sessions1, [Threw ''TypeError''])
                   | Some mimeType \<Rightarrow>
                       (sessions1,
                        [FileReceived fileId (ft_meta ft) (completeFile (ft_chunks ft)) (timestamp msg)]))
              else (sessions1, [])))"

text \<open>
  The metadata branch: \<open>Array.from({ length: data.chunks }, () => null)\<close> has no
  element when \<open>data.chunks\<close> is missing.
\<close>

definition on_metadata ::
  "(string \<rightharpoonup> fileTransfer) \<Rightarrow> WebRTCMessage \<Rightarrow> (string \<rightharpoonup> fileTransfer)"
where
  "on_metadata sessions msg =
     sessions(messageId msg \<mapsto>
       \<lparr>ft_meta = data msg,
        ft_chunks = replicate (case data_chunks (data msg) of None \<Rightarrow> 0 | Some n \<Rightarrow> n) None,
        receivedCount = 0\<rparr>)"

text \<open>
  The handler registered with \<open>onMessage\<close>, up to its first \<open>await\<close>. The branch for
  \<open>'chat'\<close> does not touch the transfers and is recorded as one effect.
\<close>

definition chat_handler ::
  "(string \<rightharpoonup> fileTransfer) \<Rightarrow> WebRTCMessage \<Rightarrow> (string \<rightharpoonup> fileTransfer) \<times> rx_effect list"
where
  "chat_handler sessions msg =
     (if msg_type msg = ''chat'' then (sessions, [ChatReceived msg])
      else if msg_type msg = ''file'' then
        (case data_fileId (data msg) of
           None \<Rightarrow> (on_metadata sessions msg, [])
         | Some fileId \<Rightarrow>
             if fileId \<noteq> [] then on_chunk sessions fileId msg
             else (on_metadata sessions msg, []))
      else (sessions, []))"

text \<open>
  The handler is an \<open>async\<close> function on a single thread: a call runs up to its
  \<open>await\<close>, and its continuation runs later, possibly after other envelopes have been
  handled. The state is the map of transfers and the file ids of the calls that are
  suspended, oldest first. \<open>Deliver\<close> is the arrival of an envelope; \<open>Resume\<close> runs the
  continuation of the oldest suspended call, which deletes the transfer of its file id,
  and does nothing when no call is suspended.
\<close>

record chat_state =
  transfers :: "string \<rightharpoonup> fileTransfer"
  suspended :: "string list"

datatype chat_event = Deliver WebRTCMessage | Resume

fun awaiting :: "rx_effect list \<Rightarrow> string list" where
  "awaiting [] = []"
| "awaiting (FileReceived fileId meta bytes t # es) = fileId # awaiting es"
| "awaiting (e # es) = awaiting es"

fun chat_step :: "chat_state \<Rightarrow> chat_event \<Rightarrow> chat_state \<times> rx_effect list" where
  "chat_step st (Deliver msg) =
     (let (s, es) = chat_handler (transfers st) msg
      in (\<lparr>transfers = s, suspended = suspended st @ awaiting es\<rparr>, es))"
| "chat_step st Resume =
     (case suspended st of
        [] \<Rightarrow> (st, [])
      | fileId # rest \<Rightarrow>
          (\<lparr>transfers = (transfers st)(fileId := None), suspended = rest\<rparr>, [FileShown fileId]))"

fun run_chat :: "chat_state \<Rightarrow> chat_event list \<Rightarrow> chat_state \<times> rx_effect list" where
  "run_chat st [] = (st, [])"
| "run_chat st (e # es) =
     (let (st1, out) = chat_step st e; (st2, out') = run_chat st1 es
      in (st2, out @ out'))"

text \<open>The byte sequences of the files reconstructed, in the order of reconstruction.\<close>

fun reconstructed :: "rx_effect list \<Rightarrow> byte list list" where
  "reconstructed [] = []"
| "reconstructed (FileReceived fileId meta bytes t # es) = bytes # reconstructed es"
| "reconstructed (e # es) = reconstructed es"

section \<open>Chat window: sending a file (ChatWindow.handleFileChange)\<close>

record File =
  file_name :: string
  file_size :: nat
  file_type :: string
  file_bytes :: "byte list"

record fileData =
  fd_name :: string
  fd_size :: nat
  fd_mimeType :: string
  fd_thumbnail :: "string option"

record message =
  m_id :: string
  m_contactId :: string
  m_content :: string
  m_type :: string
  m_sender :: string
  m_timestamp :: nat
  m_status :: string
  m_fileData :: "fileData option"

definition startsWith :: "string \<Rightarrow> string \<Rightarrow> bool" where
  "startsWith s p = (take (length p) s = p)"

definition getFileType :: "string \<Rightarrow> string" where
  "getFileType mimeType =
     (if startsWith mimeType ''image/'' then ''image''
      else if startsWith mimeType ''video/'' then ''video''
      else if startsWith mimeType ''audio/'' then ''audio''
      else ''file'')"

definition maxSize :: nat where
  "maxSize = 10 * 1024 * 1024"

definition chunkSize :: nat where
  "chunkSize = 16384"

text \<open>The decimal digits of \<open>i\<close> in the template string of a chunk's message id.\<close>

fun show_nat :: "nat \<Rightarrow> string" where
  "show_nat n =
     (if n < 10 then [char_of (48 + n)]
      else show_nat (n div 10) @ [char_of (48 + n mod 10)])"

declare show_nat.simps [simp del]

text \<open>
  What the surroundings supply during one run of \<open>handleFileChange\<close>: \<open>nanoid()\<close>,
  \<open>Date.now()\<close>, the data URL read by the \<open>FileReader\<close>, the result of
  \<open>await webrtcManager.ensureConnection(contact)\<close>, whether the \<open>k\<close>-th \<open>conn.send\<close> of
  the run throws, and whether \<open>fileInputRef.current\<close> is set. The function is \<open>async\<close>:
  the test of the size comes before its first \<open>await\<close>, and the sends come after the
  last one, in one piece; the manager passed to the model is the manager as the sends
  find it.
\<close>

record send_env =
  env_messageId :: string
  env_timestamp :: nat
  env_dataURL :: string
  env_isConnected :: bool
  env_send_throws :: "nat \<Rightarrow> bool"
  env_has_input :: bool

datatype ui_effect =
    Alert string
  | SetIsSending bool
  | AppendMessage message
  | ReplaceMessage string message
  | SaveMessage message
  | ResetFileInput
  | Uncaught string

definition chunk_envelope :: "send_env \<Rightarrow> byte list \<Rightarrow> nat \<Rightarrow> WebRTCMessage" where
  "chunk_envelope env bytes i =
     (let start = i * chunkSize;
          end = min (start + chunkSize) (length bytes);
          chunk = take (end - start) (drop start bytes)
      in \<lparr>msg_type = ''file'',
          messageId = env_messageId env @ ''-chunk-'' @ show_nat i,
          timestamp = env_timestamp env,
          data = FileChunkData (env_messageId env) i (map unat chunk)\<rparr>)"

text \<open>
  The loop \<open>for (let i = 0; i < chunks; i++)\<close>, from index \<open>i\<close> on. The result is the
  new state of the manager, \<open>allChunksSent\<close> (or the error of a call that throws) and the
  messages handed to the channel.
\<close>

function send_chunks ::
  "send_env \<Rightarrow> string \<Rightarrow> byte list \<Rightarrow> nat \<Rightarrow> manager \<Rightarrow> nat \<Rightarrow>
     manager \<times> (string + bool) \<times> (nat \<times> WebRTCMessage) list"
where
  "send_chunks env peerId bytes chunks m i =
     (if i < chunks then
        (case sendMessage m peerId (chunk_envelope env bytes i) (env_send_throws env (Suc i)) of
           (m1, Inr True, out) \<Rightarrow>
             (case send_chunks env peerId bytes chunks m1 (Suc i) of
                (m2, r, out') \<Rightarrow> (m2, r, out @ out'))
         | (m1, Inr False, out) \<Rightarrow> (m1, Inr False, out)
         | (m1, Inl err, out) \<Rightarrow> (m1, Inl err, out))
      else (m, Inr True, []))"
  by pat_completeness auto
termination
  by (relation "measure (\<lambda>(env, peerId, bytes, chunks, m, i). chunks - i)") auto

declare send_chunks.simps [simp del]

definition handleFileChange ::
  "contact \<Rightarrow> send_env \<Rightarrow> manager \<Rightarrow> File option \<Rightarrow>
     manager \<times> ui_effect list \<times> (nat \<times> WebRTCMessage) list"
where
  "handleFileChange c env m selected =
     (case selected of
        None \<Rightarrow> (m, [], [])
      | Some f \<Rightarrow>
          if file_size f > maxSize
          then (m, [Alert ''File too large. Maximum size is 10MB.''], [])
          else
            (let preview = (if startsWith (file_type f) ''image/'' then Some (env_dataURL env) else None);
                 msg = \<lparr>m_id = env_messageId env, m_contactId = contact_id c,
                        m_content = file_name f, m_type = getFileType (file_type f),
                        m_sender = ''me'', m_timestamp = env_timestamp env, m_status = ''sending'',
                        m_fileData = Some \<lparr>fd_name = file_name f, fd_size = file_size f,
                          fd_mimeType = file_type f, fd_thumbnail = preview\<rparr>\<rparr>;
                 begun = [SetIsSending True, AppendMessage msg, SaveMessage msg];
                 failedMessage = msg\<lparr>m_status := ''failed''\<rparr>;
                 failed = [SaveMessage failedMessage, ReplaceMessage (env_messageId env) failedMessage,
                           SetIsSending False]
             in if \<not> env_isConnected env then (m, begun @ failed, [])
                else
                  (let chunks = (length (file_bytes f) + chunkSize - 1) div chunkSize;
                       metadata = \<lparr>msg_type = ''file'', messageId = env_messageId env,
                                    timestamp = env_timestamp env,
                                    data = FileMetaData (file_name f) (file_size f) (file_type f)
                                             chunks preview\<rparr>
                   in case sendMessage m (contact_peerId c) metadata (env_send_throws env 0) of
                        (m1, Inl err, out) \<Rightarrow> (m1, begun @ [Uncaught err], out)
                      | (m1, Inr False, out) \<Rightarrow> (m1, begun @ failed, out)
                      | (m1, Inr True, out) \<Rightarrow>
                          (case send_chunks env (contact_peerId c) (file_bytes f) chunks m1 0 of
                             (m2, Inl err, out') \<Rightarrow> (m2, begun @ [Uncaught err], out @ out')
                           | (m2, Inr allChunksSent, out') \<Rightarrow>
                               (let finalMessage =
                                      msg\<lparr>m_status := (if allChunksSent then ''sent'' else ''failed'')\<rparr>
                                in (m2,
                                    begun @ [SaveMessage finalMessage,
                                             ReplaceMessage (env_messageId env) finalMessage,
                                             SetIsSending False]
                                          @ (if env_has_input env then [ResetFileInput] else []),
                                    out @ out'))))))"

section \<open>Contact handshake (initializePeerConnection)\<close>

text \<open>
  \<open>String.prototype.trim\<close> on the ASCII white space: space, tab, line feed, vertical
  tab, form feed and carriage return. The other white space that \<open>trim\<close> strips
  (U+00A0, U+FEFF, U+2028 and the like) lies outside ASCII and is not stripped here, so
  nothing below is stated about a name that contains it.
\<close>

definition is_space :: "char \<Rightarrow> bool" where
  "is_space ch =
     (ch = CHR '' '' \<or> ch = CHR 0x09 \<or> ch = CHR 0x0A \<or> ch = CHR 0x0B \<or> ch = CHR 0x0C
        \<or> ch = CHR 0x0D)"

definition js_trim :: "string \<Rightarrow> string" where
  "js_trim s = rev (dropWhile is_space (rev (dropWhile is_space s)))"

text \<open>
  The contact store. \<open>saveContact\<close> merges the record into the one stored under the
  same id (\<open>{ ...existing, ...contact }\<close>: a key that the new record lacks keeps its old
  value, and \<open>avatar\<close> is the only optional key) and puts the result.
\<close>

definition saveContact :: "(string \<times> contact) list \<Rightarrow> contact \<Rightarrow> (string \<times> contact) list" where
  "saveContact store c =
     (let merged =
        (case map_of store (contact_id c) of
           None \<Rightarrow> c
         | Some existing \<Rightarrow>
             (case contact_avatar c of
                None \<Rightarrow> c\<lparr>contact_avatar := contact_avatar existing\<rparr>
              | Some a \<Rightarrow> c))
      in AList.update (contact_id c) merged store)"

text \<open>
  \<open>getAllContacts\<close> returns the records in the order of the model's store, not in the key
  order of the database; it is used for a test of existence only.
\<close>

definition getAllContacts :: "(string \<times> contact) list \<Rightarrow> contact list" where
  "getAllContacts store = map snd store"

text \<open>
  The callback passed to \<open>onGlobalMessage\<close>. \<open>profile_id\<close> is \<open>profile.id\<close>, \<open>new_id\<close> is
  \<open>nanoid()\<close>, \<open>t1\<close> and \<open>t2\<close> are the two readings of \<open>Date.now()\<close>, and \<open>callbacks\<close> is
  \<open>contactsChangedCallbacksRef.current\<close>. The result is the new store and the effects
  in order: the notification and the calls of the observers. A rejection leaves the
  store as it is and has no effect. The callback is \<open>async\<close>: the three validations
  return before its first \<open>await\<close>, and the model takes the rest (reading the store,
  saving the contact) as one step.
\<close>

datatype hs_effect = NotifyNewContact string | ContactsChanged nat

definition on_contact_info ::
  "string \<Rightarrow> string \<Rightarrow> nat \<Rightarrow> nat \<Rightarrow> nat list \<Rightarrow> (string \<times> contact) list \<Rightarrow> string \<Rightarrow>
     WebRTCMessage \<Rightarrow> (string \<times> contact) list \<times> hs_effect list"
where
  "on_contact_info profile_id new_id t1 t2 callbacks store peerId msg =
     (if msg_type msg \<noteq> ''contact-info'' then (store, [])
      else if peerId = profile_id then (store, [])
      else if truthy (data_peerId (data msg)) \<and> data_peerId (data msg) \<noteq> Some peerId
        then (store, [])
      else
        (case data_displayName (data msg) of
           None \<Rightarrow> (store, [])
         | Some displayName \<Rightarrow>
             if displayName = [] \<or> js_trim displayName = [] then (store, [])
             else
               (case find (\<lambda>c. contact_peerId c = peerId) (getAllContacts store) of
                  Some existingContact \<Rightarrow> (store, [])
                | None \<Rightarrow>
                    (let newContact =
                       \<lparr>contact_id = new_id, contact_peerId = peerId,
                        contact_displayName = js_trim displayName, contact_avatar = None,
                        contact_status = ''online'', contact_lastSeen = t1,
                        contact_addedAt = t2, contact_unreadCount = 0\<rparr>
                     in (saveContact store newContact,
                         NotifyNewContact (contact_displayName newContact)
                           # map ContactsChanged callbacks)))))"

section \<open>Delivery scenarios and auxiliary notions\<close>

text \<open>
  The envelopes of one transfer as they arrive at the receiver: the metadata envelope,
  whose \<open>messageId\<close> is the file id and which declares \<open>n\<close> chunks, and the envelope of
  chunk \<open>i\<close>, which carries the numbers \<open>pl i\<close>. \<open>chunk_bytes pl i\<close> is the content of the
  slot that chunk \<open>i\<close> fills.
\<close>

definition metadata_of ::
  "string \<Rightarrow> nat \<Rightarrow> string \<Rightarrow> nat \<Rightarrow> string \<Rightarrow> nat \<Rightarrow> string option \<Rightarrow> WebRTCMessage"
where
  "metadata_of fileId t name sz mt n pv =
     \<lparr>msg_type = ''file'', messageId = fileId, timestamp = t,
      data = FileMetaData name sz mt n pv\<rparr>"

definition chunk_of ::
  "string \<Rightarrow> (nat \<Rightarrow> string) \<Rightarrow> (nat \<Rightarrow> nat) \<Rightarrow> (nat \<Rightarrow> nat list) \<Rightarrow> nat \<Rightarrow> WebRTCMessage"
where
  "chunk_of fileId mid ts pl i =
     \<lparr>msg_type = ''file'', messageId = mid i, timestamp = ts i,
      data = FileChunkData fileId i (pl i)\<rparr>"

definition chunk_bytes :: "(nat \<Rightarrow> nat list) \<Rightarrow> nat \<Rightarrow> byte list" where
  "chunk_bytes pl i = to_uint8 (Some (pl i))"

text \<open>
  What happens after the metadata envelope has arrived, as a list: \<open>Some i\<close> is the
  arrival of the envelope of chunk \<open>i\<close>, \<open>None\<close> is a \<open>Resume\<close>. In \<open>one_by_one order\<close>
  the chunks arrive in the given order and every call of the handler finishes before
  the next envelope arrives.
\<close>

definition schedule ::
  "string \<Rightarrow> (nat \<Rightarrow> string) \<Rightarrow> (nat \<Rightarrow> nat) \<Rightarrow> (nat \<Rightarrow> nat list) \<Rightarrow> nat option list \<Rightarrow> chat_event list"
where
  "schedule fileId mid ts pl sch =
     map (\<lambda>x. case x of None \<Rightarrow> Resume | Some i \<Rightarrow> Deliver (chunk_of fileId mid ts pl i)) sch"

definition one_by_one :: "nat list \<Rightarrow> nat option list" where
  "one_by_one order = concat (map (\<lambda>i. [Some i, None]) order)"

definition arrivals :: "nat option list \<Rightarrow> nat set" where
  "arrivals sch = {i. Some i \<in> set sch}"

text \<open>The transfer in which exactly the chunks with an index in \<open>D\<close> have been stored.\<close>

definition partial_transfer ::
  "payload \<Rightarrow> nat \<Rightarrow> (nat \<Rightarrow> nat list) \<Rightarrow> nat set \<Rightarrow> fileTransfer"
where
  "partial_transfer md n pl D =
     \<lparr>ft_meta = md,
      ft_chunks = map (\<lambda>i. if i \<in> D then Some (chunk_bytes pl i) else None) [0..<n],
      receivedCount = card D\<rparr>"

text \<open>The number of slots that hold bytes, and the invariant that the count equals it.\<close>

definition filled :: "byte list option list \<Rightarrow> nat" where
  "filled slots = length (filter (\<lambda>c. c \<noteq> None) slots)"

definition counts_ok :: "(string \<rightharpoonup> fileTransfer) \<Rightarrow> bool" where
  "counts_ok s = (\<forall>f ft. s f = Some ft \<longrightarrow> receivedCount ft = filled (ft_chunks ft))"

text \<open>Concrete data for the instances below.\<close>

definition bob :: contact where
  "bob = \<lparr>contact_id = ''c1'', contact_peerId = ''bob'', contact_displayName = ''Bob'',
          contact_avatar = None, contact_status = ''offline'', contact_lastSeen = 0,
          contact_addedAt = 0, contact_unreadCount = 0\<rparr>"

definition hello :: WebRTCMessage where
  "hello = \<lparr>msg_type = ''chat'', messageId = ''m1'', timestamp = 1,
            data = ChatData (Some ''hi'') (Some ''text'')\<rparr>"

definition closed_conn :: conn where
  "closed_conn = \<lparr>conn_peer = ''bob'', conn_open = False, conn_id = 7\<rparr>"

definition open_conn :: conn where
  "open_conn = \<lparr>conn_peer = ''bob'', conn_open = True, conn_id = 7\<rparr>"

definition quiet_env :: send_env where
  "quiet_env = \<lparr>env_messageId = ''f1'', env_timestamp = 1, env_dataURL = [],
                env_isConnected = True, env_send_throws = (\<lambda>k. False), env_has_input = True\<rparr>"

definition big_file :: File where
  "big_file = \<lparr>file_name = ''big.bin'', file_size = 10485761,
               file_type = ''application/octet-stream'', file_bytes = replicate 10485761 0\<rparr>"

section \<open>Relay: forwarding to a target that is not available\<close>

lemma target_available_None_iff:
  "target_available is_open r target = None \<longleftrightarrow>
     (case map_of (peers r) target of None \<Rightarrow> True | Some t \<Rightarrow> \<not> is_open (pc_ws t))"
  by (simp add: target_available_def split: option.splits)

text \<open>
  In the \<open>signal\<close> case a target that is not registered, or whose socket is not open,
  makes the relay answer the sender with the error, and the state is unchanged.
\<close>

lemma signal_unavailable_replies_error:
  "target_available is_open r target = None \<Longrightarrow>
     on_message is_open now r s (Some (Signal target sender d)) =
       (r, [(s, Error ''Target peer not available'')])"
  by simp

text \<open>In none of the four cases does an unavailable target change the state of the relay.\<close>

lemma forward_unavailable_state_unchanged:
  "target_available is_open r target = None \<Longrightarrow>
     fst (on_message is_open now r s (Some (Signal target sender d))) = r \<and>
     fst (on_message is_open now r s (Some (Offer target sender d ct))) = r \<and>
     fst (on_message is_open now r s (Some (Answer target sender d))) = r \<and>
     fst (on_message is_open now r s (Some (IceCandidate target sender d))) = r"
  by simp

text \<open>
  C2. The claim says that each of \<open>signal\<close>, \<open>offer\<close>, \<open>answer\<close> and
  \<open>ice-candidate\<close> is answered with an error when the target is not available. Only the
  \<open>signal\<close> case has the \<open>else\<close> branch that writes the error. An \<open>offer\<close> for a peer id
  that nobody registered, sent on socket 1 to the fresh relay, produces no \<open>ws.send\<close> at
  all: the sender gets no reply, and nothing is forwarded or stored.
\<close>

theorem relay_offer_unavailable_sends_nothing:
  "on_message (\<lambda>_. True) 0 relay_init 1 (Some (Offer ''nobody'' ''a1'' ''sdp'' ''audio''))
     = (relay_init, [])"
  by (simp add: relay_init_def target_available_def)

text \<open>The same input as an \<open>answer\<close> and as an \<open>ice-candidate\<close> frame.\<close>

lemma relay_answer_unavailable_sends_nothing:
  "on_message (\<lambda>_. True) 0 relay_init 1 (Some (Answer ''nobody'' ''a1'' ''sdp''))
     = (relay_init, [])"
  by (simp add: relay_init_def target_available_def)

lemma relay_ice_unavailable_sends_nothing:
  "on_message (\<lambda>_. True) 0 relay_init 1 (Some (IceCandidate ''nobody'' ''a1'' ''cand''))
     = (relay_init, [])"
  by (simp add: relay_init_def target_available_def)

section \<open>Relay: a stale socket closes\<close>

text \<open>
  Only a \<open>register\<close> frame on a socket changes the \<open>currentPeerId\<close> of that socket.
\<close>

lemma relay_step_currentPeerId:
  "\<not> registers_on s e \<Longrightarrow> currentPeerId (fst (relay_step r e)) s = currentPeerId r s"
proof (cases e)
  case (Frame is_open now s' parsed)
  assume n: "\<not> registers_on s e"
  show ?thesis
  proof (cases parsed)
    case None
    then show ?thesis using Frame by simp
  next
    case (Some msg)
    then show ?thesis using Frame n
      by (cases msg) (auto split: option.splits)
  qed
next
  case (Closed is_open now s')
  then show ?thesis
    by (simp add: on_close_def Let_def split: option.splits)
qed

lemma run_relay_currentPeerId:
  "\<not> list_ex (registers_on s) es \<Longrightarrow> currentPeerId (run_relay r es) s = currentPeerId r s"
proof (induction es arbitrary: r)
  case Nil
  then show ?case by simp
next
  case (Cons e es)
  then show ?case by (simp add: relay_step_currentPeerId)
qed

text \<open>
  The close of a socket whose last registered id is \<open>P\<close>, not empty: the entry of \<open>P\<close> is
  deleted, whichever socket it is bound to, and every remaining entry whose socket is
  open is sent the offline status of \<open>P\<close>.
\<close>

lemma on_close_registered:
  "currentPeerId r s = Some P \<Longrightarrow> P \<noteq> [] \<Longrightarrow>
     on_close is_open now r s =
       (r\<lparr>peers := AList.delete P (peers r)\<rparr>,
        map (\<lambda>(k, p). (pc_ws p, PeerStatus (Some P) ''offline'' now))
          (filter (\<lambda>(k, p). is_open (pc_ws p)) (AList.delete P (peers r))))"
  by (simp add: on_close_def Let_def)

text \<open>
  C8, as stated, fails in three ways; in each, \<open>A\<close> or the empty id registers on
  socket 1 and then on socket 2, and then socket 1 closes at time 9.

  First, the guard \<open>if (currentPeerId)\<close> of the close handler is false for the empty
  string: with the empty id, the close leaves the entry, bound to socket 2, in the
  registry and sends nothing, though \<open>B\<close> is registered on the open socket 3.

  Second, \<open>currentPeerId\<close> is the last id registered on the socket: when socket 1
  registers \<open>Q\<close> after socket 2 has registered \<open>A\<close>, the close deletes \<open>Q\<close> and
  announces \<open>Q\<close>, and \<open>A\<close> stays bound to socket 2.

  Third, the broadcast tests \<open>readyState\<close>: when the socket 3 of the registered peer
  \<open>B\<close> is not open, \<open>A\<close> is deleted and \<open>B\<close>, which remains registered, is sent
  nothing.
\<close>

theorem relay_stale_close_counterexamples:
  "on_close (\<lambda>s. s \<noteq> 1) 9
      (fst (on_message (\<lambda>_. True) 2
         (fst (on_message (\<lambda>_. True) 1
            (fst (on_message (\<lambda>_. True) 0 relay_init 3 (Some (Register ''B'' None))))
            1 (Some (Register [] None))))
         2 (Some (Register [] None))))
      1
   = (\<lparr>peers = [(''B'', \<lparr>pc_peerId = ''B'', pc_ws = 3, pc_displayName = None\<rparr>),
                 ([], \<lparr>pc_peerId = [], pc_ws = 2, pc_displayName = None\<rparr>)],
       currentPeerId = ((\<lambda>_. None)(3 := Some ''B'', 1 := Some [], 2 := Some []))\<rparr>,
      [])
   \<and> on_close (\<lambda>s. s \<noteq> 1) 9
      (fst (on_message (\<lambda>_. True) 3
         (fst (on_message (\<lambda>_. True) 2
            (fst (on_message (\<lambda>_. True) 1 relay_init 1 (Some (Register ''A'' None))))
            2 (Some (Register ''A'' None))))
         1 (Some (Register ''Q'' None))))
      1
   = (\<lparr>peers = [(''A'', \<lparr>pc_peerId = ''A'', pc_ws = 2, pc_displayName = None\<rparr>)],
       currentPeerId = ((\<lambda>_. None)(2 := Some ''A'', 1 := Some ''Q''))\<rparr>,
      [(2, PeerStatus (Some ''Q'') ''offline'' 9)])
   \<and> on_close (\<lambda>s. s = 2) 9
      (fst (on_message (\<lambda>_. True) 2
         (fst (on_message (\<lambda>_. True) 1
            (fst (on_message (\<lambda>_. True) 0 relay_init 3 (Some (Register ''B'' None))))
            1 (Some (Register ''A'' None))))
         2 (Some (Register ''A'' None))))
      1
   = (\<lparr>peers = [(''B'', \<lparr>pc_peerId = ''B'', pc_ws = 3, pc_displayName = None\<rparr>)],
       currentPeerId = ((\<lambda>_. None)(3 := Some ''B'', 1 := Some ''A'', 2 := Some ''A''))\<rparr>,
      [])"
  by (simp add: on_close_def relay_init_def fun_upd_twist)

text \<open>
  C8, amended. The peer id \<open>P\<close>, not the empty string, registers on socket \<open>Sa\<close>;
  any events follow (\<open>between\<close>); \<open>P\<close> registers on another socket \<open>Sb\<close>, which binds
  \<open>P\<close> to \<open>Sb\<close>; any events follow again (\<open>afterwards\<close>); and in neither sequence does a
  \<open>register\<close> frame arrive on \<open>Sa\<close>. When \<open>Sa\<close> then closes, its id is still \<open>P\<close>, the
  relay deletes the entry of \<open>P\<close>, whichever socket it is bound to by then, so \<open>P\<close> is
  not registered any more, and it sends the offline \<open>peer-status\<close> of \<open>P\<close> to the socket
  of every entry that remains and is open, in the order of the registry.
\<close>

theorem relay_stale_close_removes_live_binding:
  assumes "P \<noteq> []" and "Sa \<noteq> Sb"
    and "\<not> list_ex (registers_on Sa) between" and "\<not> list_ex (registers_on Sa) afterwards"
    and "ra = fst (on_message is_open ta r Sa (Some (Register P da)))"
    and "rb = fst (on_message is_open' tb (run_relay ra between) Sb (Some (Register P db)))"
    and "rc = run_relay rb afterwards"
  shows "map_of (peers rb) P = Some \<lparr>pc_peerId = P, pc_ws = Sb, pc_displayName = db\<rparr>
     \<and> currentPeerId rc Sa = Some P
     \<and> on_close is_open'' tc rc Sa =
         (rc\<lparr>peers := AList.delete P (peers rc)\<rparr>,
          map (\<lambda>(k, p). (pc_ws p, PeerStatus (Some P) ''offline'' tc))
            (filter (\<lambda>(k, p). is_open'' (pc_ws p)) (AList.delete P (peers rc))))
     \<and> map_of (AList.delete P (peers rc)) P = None"
proof -
  have a: "currentPeerId ra Sa = Some P" using assms(5) by simp
  have b: "currentPeerId (run_relay ra between) Sa = Some P"
    using run_relay_currentPeerId [OF assms(3), of ra] a by simp
  have c: "currentPeerId rb Sa = Some P" using assms(6) assms(2) b by simp
  have d: "currentPeerId rc Sa = Some P"
    using run_relay_currentPeerId [OF assms(4), of rb] c assms(7) by simp
  have e: "map_of (peers rb) P = Some \<lparr>pc_peerId = P, pc_ws = Sb, pc_displayName = db\<rparr>"
    using assms(6) by (simp add: AList.update_conv')
  show ?thesis
    using d e on_close_registered [OF d assms(1), of is_open'' tc]
    by (simp add: AList.delete_conv')
qed

text \<open>
  An instance: \<open>B\<close> is registered on socket 3, \<open>A\<close> registers on socket 1, socket 3
  sends a ping, \<open>A\<close> registers on socket 2, socket 2 sends a status update, and socket
  1 closes at time 9. After its registration \<open>A\<close> is bound to socket 2; the close
  removes \<open>A\<close> and notifies socket 3.
\<close>

theorem relay_stale_close_removes_live_binding_witness:
  "map_of (peers (fst (on_message (\<lambda>_. True) 3
       (run_relay (fst (on_message (\<lambda>_. True) 1
            (fst (on_message (\<lambda>_. True) 0 relay_init 3 (Some (Register ''B'' None))))
            1 (Some (Register ''A'' None))))
          [Frame (\<lambda>_. True) 2 3 (Some Ping)])
       2 (Some (Register ''A'' None))))) ''A''
     = Some \<lparr>pc_peerId = ''A'', pc_ws = 2, pc_displayName = None\<rparr>
   \<and> on_close (\<lambda>s. s \<noteq> 1) 9
      (run_relay (fst (on_message (\<lambda>_. True) 3
         (run_relay (fst (on_message (\<lambda>_. True) 1
              (fst (on_message (\<lambda>_. True) 0 relay_init 3 (Some (Register ''B'' None))))
              1 (Some (Register ''A'' None))))
            [Frame (\<lambda>_. True) 2 3 (Some Ping)])
         2 (Some (Register ''A'' None))))
        [Frame (\<lambda>_. True) 4 2 (Some (StatusUpdate ''online''))])
      1
     = (\<lparr>peers = [(''B'', \<lparr>pc_peerId = ''B'', pc_ws = 3, pc_displayName = None\<rparr>)],
         currentPeerId = ((\<lambda>_. None)(3 := Some ''B'', 1 := Some ''A'', 2 := Some ''A''))\<rparr>,
        [(3, PeerStatus (Some ''A'') ''offline'' 9)])"
proof -
  have p: "''A'' \<noteq> []" and s: "(1::nat) \<noteq> 2" by simp_all
  have n1: "\<not> list_ex (registers_on 1) [Frame (\<lambda>_. True) 2 3 (Some Ping)]" by simp
  have n2: "\<not> list_ex (registers_on 1) [Frame (\<lambda>_. True) 4 2 (Some (StatusUpdate ''online''))]"
    by simp
  show ?thesis
    using relay_stale_close_removes_live_binding
      [where is_open = "\<lambda>_. True" and ta = 1 and da = None and tb = 3 and db = None
         and r = "fst (on_message (\<lambda>_. True) 0 relay_init 3 (Some (Register ''B'' None)))"
         and is_open' = "\<lambda>_. True" and is_open'' = "\<lambda>s. s \<noteq> 1" and tc = 9,
       OF p s n1 n2 refl refl refl]
    by (simp add: relay_init_def)
qed

section \<open>Transport manager: reconnecting the signaling socket\<close>

lemma attemptReconnect_exhausted:
  "maxReconnectAttempts \<le> reconnectAttempts m \<Longrightarrow> attemptReconnect m = (m, None)"
  by (simp add: attemptReconnect_def)

text \<open>
  With the counter at \<open>a\<close>, \<open>n\<close> closes in a row set the timers of the attempts
  \<open>a + 1\<close>, \<open>a + 2\<close>, ... up to the maximum, the \<open>k\<close>-th with the delay
  \<open>reconnectDelay * k\<close>.
\<close>

lemma run_ws_closes:
  "reconnectAttempts m = a \<Longrightarrow>
   snd (run_ws m (replicate n WsClose)) =
     map (\<lambda>k. reconnectDelay * k) [Suc a ..< Suc (min (a + n) (max a maxReconnectAttempts))]"
proof (induction n arbitrary: m a)
  case 0
  then show ?case by simp
next
  case (Suc n)
  show ?case
  proof (cases "a < maxReconnectAttempts")
    case True
    let ?m' = "m\<lparr>reconnectAttempts := Suc a\<rparr>"
    have st: "attemptReconnect m = (?m', Some (reconnectDelay * Suc a))"
      using True Suc.prems by (simp add: attemptReconnect_def Let_def)
    have ih: "snd (run_ws ?m' (replicate n WsClose)) =
       map (\<lambda>k. reconnectDelay * k)
         [Suc (Suc a) ..< Suc (min (Suc a + n) (max (Suc a) maxReconnectAttempts))]"
      by (rule Suc.IH) simp
    have "[Suc a ..< Suc (min (a + Suc n) (max a maxReconnectAttempts))]
        = Suc a # [Suc (Suc a) ..< Suc (min (Suc a + n) (max (Suc a) maxReconnectAttempts))]"
      using True by (simp add: upt_conv_Cons max_def min_def)
    then show ?thesis using st ih
      by (simp add: split_beta)
  next
    case False
    have st: "attemptReconnect m = (m, None)"
      using False Suc.prems by (simp add: attemptReconnect_def)
    have ih: "snd (run_ws m (replicate n WsClose)) =
       map (\<lambda>k. reconnectDelay * k) [Suc a ..< Suc (min (a + n) (max a maxReconnectAttempts))]"
      by (rule Suc.IH) (rule Suc.prems)
    show ?thesis using st ih False by (simp add: split_beta max_def min_def)
  qed
qed

text \<open>
  The \<open>catch\<close> branch of \<open>initializeWebSocket\<close> does what \<open>onclose\<close> does, so a run
  of events without an \<open>onopen\<close> is a run of closes.
\<close>

lemma run_ws_no_open:
  "WsOpen \<notin> set evs \<Longrightarrow> run_ws m evs = run_ws m (replicate (length evs) WsClose)"
proof (induction evs arbitrary: m)
  case Nil
  then show ?case by simp
next
  case (Cons e evs)
  have step: "ws_step m e = ws_step m WsClose"
    using Cons.prems by (cases e) simp_all
  have rest: "WsOpen \<notin> set evs" using Cons.prems by simp
  show ?case
    using Cons.IH [OF rest, of "fst (ws_step m WsClose)"] step
    by (simp add: split_beta)
qed

text \<open>
  C7. The counter is 0 in a new manager and after every \<open>onopen\<close>. From there, let the
  socket fail any number of times without opening in between: the unexpected close and
  then, for each attempt, the close of its socket or the failure to create it. The
  timers set are those of the attempts 1 to 5 (fewer when there are fewer failures), the
  \<open>k\<close>-th with a delay of \<open>k\<close> times 1000 ms. So at most 5 attempts are scheduled
  however many failures follow, and with the counter at 5 \<open>attemptReconnect\<close> sets no
  timer and leaves the state as it is.
\<close>

theorem reconnect_attempts_bounded_linear:
  "WsOpen \<notin> set evs \<Longrightarrow>
   snd (run_ws (m\<lparr>reconnectAttempts := 0\<rparr>) evs)
     = map (\<lambda>k. k * 1000) [1 ..< Suc (min (length evs) 5)]
   \<and> length (snd (run_ws (m\<lparr>reconnectAttempts := 0\<rparr>) evs)) \<le> 5
   \<and> attemptReconnect (m\<lparr>reconnectAttempts := 5\<rparr>) = (m\<lparr>reconnectAttempts := 5\<rparr>, None)
   \<and> maxReconnectAttempts = 5 \<and> reconnectDelay = 1000"
proof -
  assume no_open: "WsOpen \<notin> set evs"
  have a: "snd (run_ws (m\<lparr>reconnectAttempts := 0\<rparr>) evs)
             = map (\<lambda>k. k * 1000) [1 ..< Suc (min (length evs) 5)]"
    using run_ws_closes [of "m\<lparr>reconnectAttempts := 0\<rparr>" 0 "length evs"]
    by (simp add: run_ws_no_open [OF no_open] maxReconnectAttempts_def reconnectDelay_def)
  have b: "attemptReconnect (m\<lparr>reconnectAttempts := 5\<rparr>) = (m\<lparr>reconnectAttempts := 5\<rparr>, None)"
    by (simp add: attemptReconnect_def maxReconnectAttempts_def)
  have c: "length (map (\<lambda>k. k * 1000) [1 ..< Suc (min (length evs) 5)]) \<le> (5::nat)"
    by (auto simp: min_def)
  show ?thesis
    using c by (simp only: a b) (simp add: maxReconnectAttempts_def reconnectDelay_def)
qed

text \<open>
  An instance: seven failures in a row, one of them a socket that cannot be created,
  schedule the five attempts after 1000, 2000, 3000, 4000 and 5000 ms and no sixth.
\<close>

theorem reconnect_attempts_bounded_linear_witness:
  "WsOpen \<notin> set [WsClose, WsCreateThrows, WsClose, WsClose, WsClose, WsClose, WsClose]
   \<and> snd (run_ws (new_manager\<lparr>reconnectAttempts := 0\<rparr>)
           [WsClose, WsCreateThrows, WsClose, WsClose, WsClose, WsClose, WsClose])
       = [1000, 2000, 3000, 4000, 5000]"
  (is "?H \<and> ?A = ?v")
proof -
  have h: "?H" by simp
  have v: "map (\<lambda>k. k * 1000)
             [1 ..< Suc (min (length [WsClose, WsCreateThrows, WsClose, WsClose, WsClose, WsClose, WsClose]) 5)]
           = (?v :: nat list)"
    by (simp add: upt_rec)
  have "?A = map (\<lambda>k. k * 1000)
             [1 ..< Suc (min (length [WsClose, WsCreateThrows, WsClose, WsClose, WsClose, WsClose, WsClose]) 5)]"
    using reconnect_attempts_bounded_linear [OF h, of new_manager] by (rule conjunct1)
  then have "?A = ?v" using v by (rule trans)
  then show ?thesis using h by (intro conjI)
qed

section \<open>Transport manager: dispatch of inbound envelopes\<close>

text \<open>Every call that \<open>handlePeerData\<close> makes is a call of the handler of that peer.\<close>

lemma handlePeerData_only_per_peer:
  "set (map fst (handlePeerData parse m p raw)) \<subseteq> set_option (messageHandlers m p)"
  by (auto simp: handlePeerData_def split: option.splits raw_data.splits)

text \<open>
  The manager under the sources has no global handlers: its \<open>handlePeerData\<close> passes a
  \<open>contact-info\<close> envelope from the peer \<open>Y\<close>, for which no handler is registered, to
  no handler at all.
\<close>

lemma handlePeerData_without_handler_calls_nothing:
  "handlePeerData (\<lambda>_. None) new_manager ''Y''
     (RawObject \<lparr>msg_type = ''contact-info'', messageId = ''m1'', timestamp = 0,
                  data = ContactInfoData (Some ''Y'') (Some ''Bob'')\<rparr>) = []"
  by (simp add: handlePeerData_def new_manager_def)





section \<open>Transport manager: one record for each peer\<close>

lemma connectToPeer_existing:
  "connections m (contact_peerId c) \<noteq> None \<Longrightarrow> connectToPeer m c lib = (m, Resolved, [])"
  by (simp add: connectToPeer_def)

lemma connectToPeer_created_has:
  "connectToPeer m c lib = (m', p, es) \<Longrightarrow> list_ex is_ChannelCreated es
     \<Longrightarrow> connections m' (contact_peerId c) \<noteq> None"
  by (auto simp: connectToPeer_def status_cb_def Let_def setupConnection_def
           split: if_splits sum.splits option.splits)

lemma connectToPeer_created_le1:
  "connectToPeer m c lib = (m', p, es) \<Longrightarrow> length (filter is_ChannelCreated es) \<le> 1"
  by (auto simp: connectToPeer_def status_cb_def Let_def
           split: if_splits sum.splits option.splits)

lemma connectToPeer_many_existing:
  "connections m (contact_peerId c) \<noteq> None \<Longrightarrow> connectToPeer_many m c libs = (m, [])"
  by (induction libs) (simp_all add: connectToPeer_existing)

lemma connectToPeer_many_le1:
  "length (filter is_ChannelCreated (snd (connectToPeer_many m c libs))) \<le> 1"
proof (induction libs arbitrary: m)
  case Nil
  then show ?case by simp
next
  case (Cons lib libs)
  obtain m1 p es where st: "connectToPeer m c lib = (m1, p, es)"
    by (cases "connectToPeer m c lib") auto
  show ?case
  proof (cases "list_ex is_ChannelCreated es")
    case True
    then have "connections m1 (contact_peerId c) \<noteq> None"
      using connectToPeer_created_has [OF st] by simp
    then have "connectToPeer_many m1 c libs = (m1, [])"
      by (rule connectToPeer_many_existing)
    then show ?thesis using st connectToPeer_created_le1 [OF st] by simp
  next
    case False
    then have "filter is_ChannelCreated es = []"
      by (simp add: list_ex_iff filter_empty_conv)
    then show ?thesis using st Cons.IH [of m1] by (simp add: split_beta)
  qed
qed

lemma setupConnection_existing:
  "connections m (conn_peer cn) \<noteq> None \<Longrightarrow> setupConnection m cn = m"
  by (auto simp: setupConnection_def)

text \<open>
  C4. The map has one entry for a peer id at most, being a map. A \<open>connectToPeer\<close> for
  a peer id that has an entry resolves at once, leaves the manager as it is and creates
  no channel; any number of \<open>connectToPeer\<close> calls in a row for one contact, whatever the
  library does on each, create one channel at most; and \<open>setupConnection\<close> for a channel
  whose peer has an entry leaves the manager as it is.
\<close>

theorem connectToPeer_idempotent:
  "(connections m (contact_peerId c) \<noteq> None \<longrightarrow> connectToPeer m c lib = (m, Resolved, []))
   \<and> length (filter is_ChannelCreated (snd (connectToPeer_many m c libs))) \<le> 1
   \<and> (connections m (conn_peer cn) \<noteq> None \<longrightarrow> setupConnection m cn = m)"
  using connectToPeer_many_le1 [of m c libs]
  by (simp add: connectToPeer_existing setupConnection_existing)

text \<open>
  An instance: the manager holds a channel to \<open>bob\<close>. A call for \<open>bob\<close> resolves and
  changes nothing, three calls in a row create no channel, and an incoming channel
  from \<open>bob\<close> is not stored.
\<close>

theorem connectToPeer_idempotent_witness:
  "connections (new_manager\<lparr>connections := [''bob'' \<mapsto> open_conn], peer := True\<rparr>)
       (contact_peerId bob) \<noteq> None
   \<and> connectToPeer (new_manager\<lparr>connections := [''bob'' \<mapsto> open_conn], peer := True\<rparr>) bob (Inr 8)
       = (new_manager\<lparr>connections := [''bob'' \<mapsto> open_conn], peer := True\<rparr>, Resolved, [])
   \<and> length (filter is_ChannelCreated
        (snd (connectToPeer_many (new_manager\<lparr>connections := [''bob'' \<mapsto> open_conn], peer := True\<rparr>)
                bob [Inr 8, Inl ''err'', Inr 9]))) \<le> 1
   \<and> setupConnection (new_manager\<lparr>connections := [''bob'' \<mapsto> open_conn], peer := True\<rparr>) closed_conn
       = new_manager\<lparr>connections := [''bob'' \<mapsto> open_conn], peer := True\<rparr>"
proof -
  have h: "connections (new_manager\<lparr>connections := [''bob'' \<mapsto> open_conn], peer := True\<rparr>)
             (contact_peerId bob) \<noteq> None"
    by (simp add: bob_def)
  have h': "connections (new_manager\<lparr>connections := [''bob'' \<mapsto> open_conn], peer := True\<rparr>)
             (conn_peer closed_conn) \<noteq> None"
    by (simp add: closed_conn_def)
  show ?thesis
    using h h'
      connectToPeer_idempotent
        [of "new_manager\<lparr>connections := [''bob'' \<mapsto> open_conn], peer := True\<rparr>" bob "Inr 8"
            "[Inr 8, Inl ''err'', Inr 9]" closed_conn]
    by blast
qed

section \<open>Transport manager: sending\<close>

text \<open>
  C6. When the peer has no entry, or has an entry whose channel is not open,
  \<open>sendMessage\<close> returns \<open>false\<close> (it does not throw) and hands nothing to a channel.
\<close>

theorem sendMessage_no_open_channel:
  "connections m p = None \<or> (\<exists>cn. connections m p = Some cn \<and> \<not> conn_open cn) \<Longrightarrow>
     snd (sendMessage m p msg send_throws) = (Inr False, [])"
  by (auto simp: sendMessage_def)

text \<open>An instance of each case: no entry for \<open>bob\<close>, and an entry with a closed channel.\<close>

theorem sendMessage_no_open_channel_witness:
  "connections new_manager ''bob'' = None
   \<and> snd (sendMessage new_manager ''bob'' hello False) = (Inr False, [])
   \<and> connections (new_manager\<lparr>connections := [''bob'' \<mapsto> closed_conn]\<rparr>) ''bob'' = Some closed_conn
   \<and> conn_open closed_conn = False
   \<and> snd (sendMessage (new_manager\<lparr>connections := [''bob'' \<mapsto> closed_conn]\<rparr>) ''bob'' hello False)
       = (Inr False, [])"
proof -
  have a: "connections new_manager ''bob'' = None"
    by (simp add: new_manager_def)
  have b: "connections (new_manager\<lparr>connections := [''bob'' \<mapsto> closed_conn]\<rparr>) ''bob'' = Some closed_conn"
    by simp
  have c: "conn_open closed_conn = False"
    by (simp add: closed_conn_def)
  have b': "\<exists>cn. connections (new_manager\<lparr>connections := [''bob'' \<mapsto> closed_conn]\<rparr>) ''bob'' = Some cn
              \<and> \<not> conn_open cn"
    using b c by simp
  show ?thesis
    using a b c
      sendMessage_no_open_channel [OF disjI1, OF a, of hello False]
      sendMessage_no_open_channel [OF disjI2, OF b', of hello False]
    by (intro conjI)
qed

text \<open>
  C10. \<open>sendMessage\<close> returns \<open>false\<close> or \<open>true\<close>. When it returns \<open>false\<close> the peer has
  no entry afterwards and the entry of every other peer is as before (so the entry
  that the peer had is deleted); when it returns \<open>true\<close> the manager, and with it the
  map, is unchanged.
\<close>

theorem sendMessage_frame:
  "sendMessage m p msg send_throws = (m', r, out) \<Longrightarrow>
     (r = Inr False \<or> r = Inr True) \<and>
     (r = Inr False \<longrightarrow>
        connections m' = (connections m)(p := None) \<and>
        (\<forall>q. q \<noteq> p \<longrightarrow> connections m' q = connections m q)) \<and>
     (r = Inr True \<longrightarrow> m' = m)"
  by (auto simp: sendMessage_def conn_send_def split: option.splits if_splits)

text \<open>
  Instances: the channel to \<open>bob\<close> is closed, or it is open and \<open>conn.send\<close> throws, and
  the entry of \<open>bob\<close> is deleted while that of \<open>eve\<close> stays; the channel is open and
  the send succeeds, and the map is as before.
\<close>

theorem sendMessage_frame_witness:
  "sendMessage (new_manager\<lparr>connections := [''eve'' \<mapsto> open_conn, ''bob'' \<mapsto> closed_conn]\<rparr>)
       ''bob'' hello False
     = (new_manager\<lparr>connections := [''eve'' \<mapsto> open_conn]\<rparr>, Inr False, [])
   \<and> sendMessage (new_manager\<lparr>connections := [''eve'' \<mapsto> open_conn, ''bob'' \<mapsto> open_conn]\<rparr>)
       ''bob'' hello True
     = (new_manager\<lparr>connections := [''eve'' \<mapsto> open_conn]\<rparr>, Inr False, [])
   \<and> sendMessage (new_manager\<lparr>connections := [''eve'' \<mapsto> open_conn, ''bob'' \<mapsto> open_conn]\<rparr>)
       ''bob'' hello False
     = (new_manager\<lparr>connections := [''eve'' \<mapsto> open_conn, ''bob'' \<mapsto> open_conn]\<rparr>,
        Inr True, [(7, hello)])"
proof -
  let ?m = "new_manager\<lparr>connections := [''eve'' \<mapsto> open_conn, ''bob'' \<mapsto> closed_conn]\<rparr>"
  let ?n = "new_manager\<lparr>connections := [''eve'' \<mapsto> open_conn, ''bob'' \<mapsto> open_conn]\<rparr>"
  obtain m1 r1 o1 where e1: "sendMessage ?m ''bob'' hello False = (m1, r1, o1)"
    using prod_cases3 by blast
  obtain m2 r2 o2 where e2: "sendMessage ?n ''bob'' hello True = (m2, r2, o2)"
    using prod_cases3 by blast
  obtain m3 r3 o3 where e3: "sendMessage ?n ''bob'' hello False = (m3, r3, o3)"
    using prod_cases3 by blast
  have v1: "r1 = Inr False" "o1 = []" "m1 = ?m\<lparr>connections := (connections ?m)(''bob'' := None)\<rparr>"
    using e1 by (simp_all add: sendMessage_def closed_conn_def)
  have v2: "r2 = Inr False" "o2 = []" "m2 = ?n\<lparr>connections := (connections ?n)(''bob'' := None)\<rparr>"
    using e2 by (simp_all add: sendMessage_def open_conn_def conn_send_def)
  have v3: "r3 = Inr True" "o3 = [(7, hello)]"
    using e3 by (auto simp: sendMessage_def open_conn_def conn_send_def)
  have f1: "connections m1 = (connections ?m)(''bob'' := None)"
    using sendMessage_frame [OF e1] v1(1) by blast
  have f3: "m3 = ?n"
    using sendMessage_frame [OF e3] v3(1) by blast
  have g1: "m1 = new_manager\<lparr>connections := [''eve'' \<mapsto> open_conn]\<rparr>"
    using v1(3) f1 by (simp add: new_manager_def)
  have g2: "m2 = new_manager\<lparr>connections := [''eve'' \<mapsto> open_conn]\<rparr>"
    using v2(3) by (simp add: new_manager_def)
  show ?thesis
    using e1 e2 e3 v1(1,2) v2(1,2) v3 g1 g2 f3 by simp
qed

section \<open>Chat window: the size limit on sending\<close>

text \<open>
  C9. For a selected file whose size is above \<open>10 * 1024 * 1024\<close> the only effect of
  \<open>handleFileChange\<close> is the alert: the manager is unchanged, no message is saved or
  shown, and no envelope (metadata or chunk) is handed to a channel.
\<close>

theorem handleFileChange_too_large:
  "10 * 1024 * 1024 < file_size f \<Longrightarrow>
     handleFileChange c env m (Some f)
       = (m, [Alert ''File too large. Maximum size is 10MB.''], [])"
  by (simp add: handleFileChange_def maxSize_def)

text \<open>An instance: a file of 10485761 bytes, one byte above the limit, on an open channel.\<close>

theorem handleFileChange_too_large_witness:
  "(10::nat) * 1024 * 1024 < file_size big_file
   \<and> handleFileChange bob quiet_env (new_manager\<lparr>connections := [''bob'' \<mapsto> open_conn]\<rparr>)
         (Some big_file)
       = (new_manager\<lparr>connections := [''bob'' \<mapsto> open_conn]\<rparr>,
          [Alert ''File too large. Maximum size is 10MB.''], [])"
proof -
  have h: "(10::nat) * 1024 * 1024 < file_size big_file"
    by (simp add: big_file_def)
  show ?thesis
    using h handleFileChange_too_large [OF h, of bob quiet_env
        "new_manager\<lparr>connections := [''bob'' \<mapsto> open_conn]\<rparr>"]
    by (intro conjI)
qed

text \<open>A file of exactly the limit is not rejected: the run begins as for any file.\<close>

lemma handleFileChange_at_limit_not_rejected:
  assumes "file_size f = 10 * 1024 * 1024" and "\<not> env_isConnected env"
  shows "hd (fst (snd (handleFileChange c env m (Some f)))) = SetIsSending True"
proof -
  have le: "\<not> maxSize < file_size f" using assms by (simp add: maxSize_def)
  show ?thesis
    unfolding handleFileChange_def using le assms(2) by (simp add: Let_def)
qed

section \<open>Contact handshake: the peer id of the payload\<close>

text \<open>
  C5, as stated. The test is \<open>message.data.peerId && message.data.peerId !== peerId\<close>,
  and the empty string is falsy: an envelope that arrives on the channel of \<open>Y\<close> with
  the peer id \<open>''''\<close> in its payload, which is present and differs from \<open>Y\<close>, is
  accepted. The contact is created for \<open>Y\<close> and saved, the notification fires and the
  observer is called.
\<close>

theorem contact_info_empty_peerId_accepted:
  "on_contact_info ''me'' ''c1'' 10 11 [0] [] ''Y''
      \<lparr>msg_type = ''contact-info'', messageId = ''m1'', timestamp = 5,
       data = ContactInfoData (Some []) (Some ''Eve'')\<rparr>
   = ([(''c1'', \<lparr>contact_id = ''c1'', contact_peerId = ''Y'', contact_displayName = ''Eve'',
                 contact_avatar = None, contact_status = ''online'', contact_lastSeen = 10,
                 contact_addedAt = 11, contact_unreadCount = 0\<rparr>)],
      [NotifyNewContact ''Eve'', ContactsChanged 0])"
  by (simp add: on_contact_info_def js_trim_def is_space_def saveContact_def getAllContacts_def)

text \<open>
  C5, amended to a peer id in the payload that is not the empty string. When the
  payload carries the peer id \<open>x\<close>, \<open>x\<close> is not empty and differs from the remote id of
  the channel, the handler leaves the store as it is and has no effect: no contact is
  created or saved, no notification fires and no observer is called.
\<close>

theorem contact_info_spoof_rejected:
  "data_peerId (data msg) = Some x \<Longrightarrow> x \<noteq> [] \<Longrightarrow> x \<noteq> peerId \<Longrightarrow>
     on_contact_info profile_id new_id t1 t2 callbacks store peerId msg = (store, [])"
  by (simp add: on_contact_info_def)

text \<open>An instance: the payload names \<open>X\<close>, the envelope arrives on the channel of \<open>Y\<close>.\<close>

theorem contact_info_spoof_rejected_witness:
  "on_contact_info ''me'' ''c1'' 10 11 [0] [] ''Y''
      \<lparr>msg_type = ''contact-info'', messageId = ''m1'', timestamp = 5,
       data = ContactInfoData (Some ''X'') (Some ''Eve'')\<rparr> = ([], [])"
proof -
  have a: "data_peerId (data \<lparr>msg_type = ''contact-info'', messageId = ''m1'', timestamp = 5,
             data = ContactInfoData (Some ''X'') (Some ''Eve'')\<rparr>) = Some ''X''"
    by simp
  have b: "''X'' \<noteq> []" and c: "''X'' \<noteq> ''Y''"
    by simp_all
  show ?thesis
    by (rule contact_info_spoof_rejected [OF a b c])
qed

text \<open>Without a peer id in the payload the same envelope is accepted.\<close>

lemma contact_info_without_peerId_accepted:
  "on_contact_info ''me'' ''c1'' 10 11 [0] [] ''Y''
      \<lparr>msg_type = ''contact-info'', messageId = ''m1'', timestamp = 5,
       data = ContactInfoData None (Some ''Eve'')\<rparr>
   = ([(''c1'', \<lparr>contact_id = ''c1'', contact_peerId = ''Y'', contact_displayName = ''Eve'',
                 contact_avatar = None, contact_status = ''online'', contact_lastSeen = 10,
                 contact_addedAt = 11, contact_unreadCount = 0\<rparr>)],
      [NotifyNewContact ''Eve'', ContactsChanged 0])"
  by (simp add: on_contact_info_def js_trim_def is_space_def saveContact_def getAllContacts_def)

section \<open>Chat window: reassembly of a file\<close>

text \<open>
  The count of a transfer equals the number of its filled slots, whatever happens:
  storing fills one empty slot and adds one, and nothing else writes either.
\<close>

lemma filled_update:
  "i < length xs \<Longrightarrow> xs ! i = None \<Longrightarrow> filled (xs[i := Some b]) = Suc (filled xs)"
proof (induction xs arbitrary: i)
  case Nil
  then show ?case by simp
next
  case (Cons x xs)
  then show ?case by (cases i) (auto simp: filled_def)
qed

lemma filled_le: "filled xs \<le> length xs"
  by (simp add: filled_def)

lemma filled_replicate: "filled (replicate n None) = 0"
  by (simp add: filled_def)

lemma store_chunk_counts:
  "receivedCount ft = filled (ft_chunks ft) \<Longrightarrow>
     receivedCount (store_chunk ft idx b) = filled (ft_chunks (store_chunk ft idx b))"
  by (cases idx) (simp_all add: store_chunk_def filled_update)

lemma on_chunk_counts:
  assumes "counts_ok s"
  shows "counts_ok (fst (on_chunk s fileId msg))"
proof (cases "s fileId")
  case None
  then show ?thesis using assms by (simp add: on_chunk_def)
next
  case (Some ft0)
  let ?ft = "store_chunk ft0 (data_chunkIndex (data msg)) (to_uint8 (data_chunkData (data msg)))"
  have ok0: "receivedCount ft0 = filled (ft_chunks ft0)"
    using assms Some by (simp add: counts_ok_def)
  have ok: "receivedCount ?ft = filled (ft_chunks ?ft)"
    using ok0 by (rule store_chunk_counts)
  have a: "counts_ok (s(fileId \<mapsto> ?ft))"
    using assms ok by (simp add: counts_ok_def)
  have b: "counts_ok (s(fileId := None))"
    using assms by (simp add: counts_ok_def)
  have "fst (on_chunk s fileId msg) = s(fileId \<mapsto> ?ft) \<or> fst (on_chunk s fileId msg) = s(fileId := None)"
    using Some by (simp add: on_chunk_def Let_def split: option.splits)
  then show ?thesis using a b by auto
qed

lemma on_metadata_counts:
  "counts_ok s \<Longrightarrow> counts_ok (on_metadata s msg)"
  by (simp add: counts_ok_def on_metadata_def filled_replicate)

lemma chat_handler_counts:
  "counts_ok s \<Longrightarrow> counts_ok (fst (chat_handler s msg))"
  by (simp add: chat_handler_def on_chunk_counts on_metadata_counts split: option.splits)

lemma chat_step_counts:
  "counts_ok (transfers st) \<Longrightarrow> counts_ok (transfers (fst (chat_step st e)))"
proof (cases e)
  case (Deliver msg)
  assume "counts_ok (transfers st)"
  then show ?thesis
    using Deliver chat_handler_counts [of "transfers st" msg] by (simp add: split_beta)
next
  case Resume
  assume "counts_ok (transfers st)"
  then show ?thesis
    using Resume by (cases "suspended st") (simp_all add: counts_ok_def)
qed

lemma run_chat_counts:
  "counts_ok (transfers st) \<Longrightarrow> counts_ok (transfers (fst (run_chat st es)))"
proof (induction es arbitrary: st)
  case Nil
  then show ?case by simp
next
  case (Cons e es)
  then show ?case
    using Cons.IH [of "fst (chat_step st e)"] chat_step_counts [of st e]
    by (simp add: split_beta)
qed

text \<open>
  So after any sequence of arrivals and resumptions whatsoever, the count of every
  transfer in the map is at most the number of its slots.
\<close>

lemma receivedCount_never_exceeds_slots:
  assumes "transfers (fst (run_chat \<lparr>transfers = Map.empty, suspended = []\<rparr> es)) f = Some ft"
  shows "receivedCount ft \<le> length (ft_chunks ft)"
proof -
  have "counts_ok (transfers \<lparr>transfers = Map.empty, suspended = []\<rparr>)"
    by (simp add: counts_ok_def)
  then have "counts_ok (transfers (fst (run_chat \<lparr>transfers = Map.empty, suspended = []\<rparr> es)))"
    by (rule run_chat_counts)
  then have "receivedCount ft = filled (ft_chunks ft)" using assms by (simp add: counts_ok_def)
  then show ?thesis by (simp add: filled_le)
qed

text \<open>A second delivery of a chunk, with whatever bytes, changes neither slot nor count.\<close>

lemma store_chunk_duplicate:
  "store_chunk (store_chunk ft idx b) idx b' = store_chunk ft idx b"
  by (cases idx) (simp_all add: store_chunk_def)

text \<open>
  Storing chunk \<open>j\<close> in the transfer of the set \<open>D\<close> gives the transfer of
  \<open>insert j D\<close>, whether \<open>j\<close> is new or a duplicate.
\<close>

lemma store_chunk_partial:
  assumes "D \<subseteq> {0..<n}" and "j < n"
  shows "store_chunk (partial_transfer md n pl D) (Some j) (chunk_bytes pl j)
           = partial_transfer md n pl (insert j D)"
proof (cases "j \<in> D")
  case True
  then have "insert j D = D" by auto
  then show ?thesis using True assms by (simp add: store_chunk_def partial_transfer_def)
next
  case False
  have fin: "finite D" using assms(1) by (rule finite_subset) simp
  have "(map (\<lambda>i. if i \<in> D then Some (chunk_bytes pl i) else None) [0..<n])[j := Some (chunk_bytes pl j)]
        = map (\<lambda>i. if i \<in> insert j D then Some (chunk_bytes pl i) else None) [0..<n]"
    using assms(2) by (intro nth_equalityI) (auto simp: nth_list_update)
  then show ?thesis using False assms fin
    by (simp add: store_chunk_def partial_transfer_def)
qed

lemma partial_full_iff:
  assumes "D \<subseteq> {0..<n}"
  shows "receivedCount (partial_transfer md n pl D) = length (ft_chunks (partial_transfer md n pl D))
           \<longleftrightarrow> D = {0..<n}"
proof -
  have "card D = n \<longleftrightarrow> D = {0..<n}"
    using assms card_subset_eq [of "{0..<n}" D] by auto
  then show ?thesis by (simp add: partial_transfer_def)
qed

lemma partial_full_no_missing:
  "\<not> list_ex (\<lambda>c. c = None) (ft_chunks (partial_transfer md n pl {0..<n}))"
  by (auto simp: partial_transfer_def list_ex_iff)

lemma concat_filled:
  "set xs \<subseteq> D \<Longrightarrow>
     concat (map (\<lambda>c. case c of None \<Rightarrow> [] | Some b \<Rightarrow> b)
               (map (\<lambda>i. if i \<in> D then Some (f i) else None) xs)) = concat (map f xs)"
  by (induction xs) auto

lemma completeFile_full:
  "completeFile (ft_chunks (partial_transfer md n pl {0..<n})) = concat (map (chunk_bytes pl) [0..<n])"
  unfolding completeFile_def partial_transfer_def
  using concat_filled [of "[0..<n]" "{0..<n}" "chunk_bytes pl"] by simp

lemma receivedCount_partial_le:
  "D \<subseteq> {0..<n} \<Longrightarrow> receivedCount (partial_transfer md n pl D) \<le> n"
  using card_mono [of "{0..<n}" D] by (simp add: partial_transfer_def)

text \<open>One call of the handler on a chunk envelope, and on the metadata envelope.\<close>

lemma chat_handler_chunk_absent:
  "fileId \<noteq> [] \<Longrightarrow> s fileId = None \<Longrightarrow> chat_handler s (chunk_of fileId mid ts pl j) = (s, [])"
  by (simp add: chat_handler_def chunk_of_def on_chunk_def)

lemma chat_handler_chunk_partial:
  assumes "fileId \<noteq> []" and "D \<subseteq> {0..<n}" and "j < n"
    and "s fileId = Some (partial_transfer (FileMetaData name sz mt n pv) n pl D)"
  shows "chat_handler s (chunk_of fileId mid ts pl j) =
     (s(fileId \<mapsto> partial_transfer (FileMetaData name sz mt n pv) n pl (insert j D)),
      if insert j D = {0..<n}
      then [FileReceived fileId (FileMetaData name sz mt n pv)
               (concat (map (chunk_bytes pl) [0..<n])) (ts j)]
      else [])"
proof -
  let ?md = "FileMetaData name sz mt n pv"
  have sub: "insert j D \<subseteq> {0..<n}" using assms by auto
  have st: "store_chunk (partial_transfer ?md n pl D) (Some j) (to_uint8 (Some (pl j)))
              = partial_transfer ?md n pl (insert j D)"
    using store_chunk_partial [OF assms(2,3), of ?md pl] by (simp add: chunk_bytes_def)
  have meta: "ft_meta (partial_transfer ?md n pl (insert j D)) = ?md"
    by (simp add: partial_transfer_def)
  show ?thesis
  proof (cases "insert j D = {0..<n}")
    case True
    have full: "receivedCount (partial_transfer ?md n pl (insert j D))
                  = length (ft_chunks (partial_transfer ?md n pl (insert j D)))"
      using partial_full_iff [OF sub] True by simp
    show ?thesis
      using assms(1,4) st True partial_full_no_missing [of ?md n pl] completeFile_full [of ?md n pl] full meta
      by (simp add: chat_handler_def chunk_of_def on_chunk_def Let_def)
  next
    case False
    have nfull: "receivedCount (partial_transfer ?md n pl (insert j D))
                   \<noteq> length (ft_chunks (partial_transfer ?md n pl (insert j D)))"
      using partial_full_iff [OF sub] False by simp
    show ?thesis
      using assms(1,4) st False nfull
      by (simp add: chat_handler_def chunk_of_def on_chunk_def Let_def)
  qed
qed

lemma chat_handler_metadata:
  "chat_handler s (metadata_of fileId t name sz mt n pv) =
     (s(fileId \<mapsto> partial_transfer (FileMetaData name sz mt n pv) n pl {}), [])"
  by (simp add: chat_handler_def metadata_of_def on_metadata_def partial_transfer_def map_replicate_const)

text \<open>Schedules.\<close>

lemma arrivals_Nil [simp]: "arrivals [] = {}"
  by (simp add: arrivals_def)

lemma arrivals_Some [simp]: "arrivals (Some i # sch) = insert i (arrivals sch)"
  by (auto simp: arrivals_def)

lemma arrivals_None [simp]: "arrivals (None # sch) = arrivals sch"
  by (auto simp: arrivals_def)

lemma arrivals_take: "arrivals (take k sch) \<subseteq> arrivals sch"
  using set_take_subset [of k sch] by (auto simp: arrivals_def)

lemma arrivals_one_by_one [simp]: "arrivals (one_by_one order) = set order"
  by (induction order) (simp_all add: one_by_one_def)

lemma schedule_Nil [simp]: "schedule fileId mid ts pl [] = []"
  by (simp add: schedule_def)

lemma schedule_Some [simp]:
  "schedule fileId mid ts pl (Some i # sch) = Deliver (chunk_of fileId mid ts pl i) # schedule fileId mid ts pl sch"
  by (simp add: schedule_def)

lemma schedule_None [simp]:
  "schedule fileId mid ts pl (None # sch) = Resume # schedule fileId mid ts pl sch"
  by (simp add: schedule_def)

lemma one_by_one_Cons [simp]: "one_by_one (i # order) = Some i # None # one_by_one order"
  by (simp add: one_by_one_def)

lemma one_by_one_Nil [simp]: "one_by_one [] = []"
  by (simp add: one_by_one_def)

text \<open>Single steps.\<close>

lemma reconstructed_append:
  "reconstructed (xs @ ys) = reconstructed xs @ reconstructed ys"
  by (induction xs rule: reconstructed.induct) simp_all

lemma run_chat_Cons:
  "run_chat st (e # es) =
     (fst (run_chat (fst (chat_step st e)) es),
      snd (chat_step st e) @ snd (run_chat (fst (chat_step st e)) es))"
  by (simp add: split_beta)

lemma chat_step_Resume_idle:
  "suspended st = [] \<Longrightarrow> chat_step st Resume = (st, [])"
  by simp

lemma chat_step_Resume_reconstructs_nothing:
  "reconstructed (snd (chat_step st Resume)) = []"
  by (cases "suspended st") simp_all

lemma chat_step_Resume_transfers:
  "transfers (fst (chat_step st Resume)) f = None \<or>
   transfers (fst (chat_step st Resume)) f = transfers st f"
  by (cases "suspended st") simp_all

lemma chat_step_chunk_absent:
  assumes "fileId \<noteq> []" and "transfers st fileId = None"
  shows "chat_step st (Deliver (chunk_of fileId mid ts pl j)) = (st, [])"
  using chat_handler_chunk_absent [where s = "transfers st", OF assms, of mid ts pl j] by simp

lemma chat_step_chunk_partial:
  assumes "fileId \<noteq> []" and "D \<subseteq> {0..<n}" and "j < n"
    and "transfers st fileId = Some (partial_transfer (FileMetaData name sz mt n pv) n pl D)"
  shows "chat_step st (Deliver (chunk_of fileId mid ts pl j)) =
     (\<lparr>transfers = (transfers st)(fileId \<mapsto> partial_transfer (FileMetaData name sz mt n pv) n pl (insert j D)),
       suspended = suspended st @ (if insert j D = {0..<n} then [fileId] else [])\<rparr>,
      if insert j D = {0..<n}
      then [FileReceived fileId (FileMetaData name sz mt n pv)
               (concat (map (chunk_bytes pl) [0..<n])) (ts j)]
      else [])"
proof -
  have "chat_handler (transfers st) (chunk_of fileId mid ts pl j) =
     ((transfers st)(fileId \<mapsto> partial_transfer (FileMetaData name sz mt n pv) n pl (insert j D)),
      if insert j D = {0..<n}
      then [FileReceived fileId (FileMetaData name sz mt n pv)
               (concat (map (chunk_bytes pl) [0..<n])) (ts j)]
      else [])"
    using assms by (rule chat_handler_chunk_partial)
  then show ?thesis by simp
qed

lemma run_chat_Nil:
  "run_chat st [] = (st, [])"
  by simp

declare chat_step.simps [simp del]

declare run_chat.simps [simp del]

text \<open>Once the file is complete: whatever follows reconstructs the same bytes or nothing.\<close>

lemma run_chat_done:
  assumes "fileId \<noteq> []"
  shows "arrivals sch \<subseteq> {0..<n} \<Longrightarrow>
     transfers st fileId = None \<or>
       transfers st fileId = Some (partial_transfer (FileMetaData name sz mt n pv) n pl {0..<n}) \<Longrightarrow>
     set (reconstructed (snd (run_chat st (schedule fileId mid ts pl sch))))
       \<subseteq> {concat (map (chunk_bytes pl) [0..<n])}"
proof (induction sch arbitrary: st)
  case Nil
  then show ?case by (simp add: run_chat_Nil)
next
  case (Cons x sch)
  let ?full = "partial_transfer (FileMetaData name sz mt n pv) n pl {0..<n}"
  let ?c = "concat (map (chunk_bytes pl) [0..<n])"
  show ?case
  proof (cases x)
    case None
    let ?st1 = "fst (chat_step st Resume)"
    have inv: "transfers ?st1 fileId = None \<or> transfers ?st1 fileId = Some ?full"
      using Cons.prems(2) chat_step_Resume_transfers [of st fileId] by auto
    have sub: "arrivals sch \<subseteq> {0..<n}" using Cons.prems(1) None by simp
    have "set (reconstructed (snd (run_chat ?st1 (schedule fileId mid ts pl sch)))) \<subseteq> {?c}"
      using sub inv by (rule Cons.IH)
    then show ?thesis
      using None chat_step_Resume_reconstructs_nothing [of st]
      by (simp only: schedule_None run_chat_Cons snd_conv reconstructed_append) simp
  next
    case (Some j)
    have j: "j < n" and sub: "arrivals sch \<subseteq> {0..<n}" using Cons.prems(1) Some by simp_all
    show ?thesis
    proof (cases "transfers st fileId")
      case None
      have step: "chat_step st (Deliver (chunk_of fileId mid ts pl j)) = (st, [])"
        using assms None by (rule chat_step_chunk_absent)
      have "set (reconstructed (snd (run_chat st (schedule fileId mid ts pl sch)))) \<subseteq> {?c}"
        using sub Cons.prems(2) by (rule Cons.IH)
      then show ?thesis
        using step \<open>x = Some j\<close>
        by (simp only: schedule_Some run_chat_Cons snd_conv fst_conv reconstructed_append) simp
    next
      case (Some ft)
      then have full: "transfers st fileId = Some ?full" using Cons.prems(2) by simp
      have ins: "insert j {0..<n} = {0..<n}" using j by auto
      let ?st1 = "\<lparr>transfers = (transfers st)(fileId \<mapsto> ?full), suspended = suspended st @ [fileId]\<rparr>"
      have step: "chat_step st (Deliver (chunk_of fileId mid ts pl j)) =
         (?st1, [FileReceived fileId (FileMetaData name sz mt n pv) ?c (ts j)])"
        using chat_step_chunk_partial [where D = "{0..<n}" and st = st and mid = mid and ts = ts,
                OF assms subset_refl j full]
        by (simp add: ins)
      have inv: "transfers ?st1 fileId = None \<or> transfers ?st1 fileId = Some ?full" by simp
      have "set (reconstructed (snd (run_chat ?st1 (schedule fileId mid ts pl sch)))) \<subseteq> {?c}"
        using sub inv by (rule Cons.IH)
      then show ?thesis
        using step \<open>x = Some j\<close>
        by (simp only: schedule_Some run_chat_Cons snd_conv fst_conv reconstructed_append) simp
    qed
  qed
qed

text \<open>
  While the file is incomplete no call is suspended, so a \<open>Resume\<close> does nothing; the
  chunks that are still missing complete the file.
\<close>

lemma run_chat_progress:
  assumes "fileId \<noteq> []"
  shows "D \<subset> {0..<n} \<Longrightarrow> arrivals sch \<subseteq> {0..<n} \<Longrightarrow> D \<union> arrivals sch = {0..<n} \<Longrightarrow>
     transfers st fileId = Some (partial_transfer (FileMetaData name sz mt n pv) n pl D) \<Longrightarrow>
     suspended st = [] \<Longrightarrow>
     set (reconstructed (snd (run_chat st (schedule fileId mid ts pl sch))))
       = {concat (map (chunk_bytes pl) [0..<n])}"
proof (induction sch arbitrary: st D)
  case Nil
  then show ?case by (auto simp: run_chat_Nil)
next
  case (Cons x sch)
  let ?md = "FileMetaData name sz mt n pv"
  let ?c = "concat (map (chunk_bytes pl) [0..<n])"
  show ?case
  proof (cases x)
    case None
    have step: "chat_step st Resume = (st, [])"
      using Cons.prems(5) by (rule chat_step_Resume_idle)
    have sub: "arrivals sch \<subseteq> {0..<n}" and cover: "D \<union> arrivals sch = {0..<n}"
      using Cons.prems(2,3) None by simp_all
    have "set (reconstructed (snd (run_chat st (schedule fileId mid ts pl sch)))) = {?c}"
      using Cons.prems(1) sub cover Cons.prems(4,5) by (rule Cons.IH)
    then show ?thesis
      using step None
      by (simp only: schedule_None run_chat_Cons snd_conv fst_conv reconstructed_append) simp
  next
    case (Some j)
    have j: "j < n" and sub: "arrivals sch \<subseteq> {0..<n}" using Cons.prems(2) Some by simp_all
    have subD: "D \<subseteq> {0..<n}" using Cons.prems(1) by auto
    have step: "chat_step st (Deliver (chunk_of fileId mid ts pl j)) =
       (\<lparr>transfers = (transfers st)(fileId \<mapsto> partial_transfer ?md n pl (insert j D)),
         suspended = suspended st @ (if insert j D = {0..<n} then [fileId] else [])\<rparr>,
        if insert j D = {0..<n}
        then [FileReceived fileId ?md ?c (ts j)]
        else [])"
      using assms subD j Cons.prems(4) by (rule chat_step_chunk_partial)
    show ?thesis
    proof (cases "insert j D = {0..<n}")
      case True
      let ?st1 = "\<lparr>transfers = (transfers st)(fileId \<mapsto> partial_transfer ?md n pl {0..<n}),
                    suspended = [fileId]\<rparr>"
      have step1: "chat_step st (Deliver (chunk_of fileId mid ts pl j)) =
                     (?st1, [FileReceived fileId ?md ?c (ts j)])"
        using step True Cons.prems(5) by simp
      have inv: "transfers ?st1 fileId = None \<or>
                 transfers ?st1 fileId = Some (partial_transfer ?md n pl {0..<n})" by simp
      have rest: "set (reconstructed (snd (run_chat ?st1 (schedule fileId mid ts pl sch)))) \<subseteq> {?c}"
        using assms sub inv by (rule run_chat_done)
      show ?thesis
        using step1 rest Some
        by (simp only: schedule_Some run_chat_Cons snd_conv fst_conv reconstructed_append) auto
    next
      case False
      let ?st1 = "\<lparr>transfers = (transfers st)(fileId \<mapsto> partial_transfer ?md n pl (insert j D)),
                    suspended = []\<rparr>"
      have step1: "chat_step st (Deliver (chunk_of fileId mid ts pl j)) = (?st1, [])"
        using step False Cons.prems(5) by simp
      have strict: "insert j D \<subset> {0..<n}" using False subD j by auto
      have cover: "insert j D \<union> arrivals sch = {0..<n}" using Cons.prems(3) Some by auto
      have tr: "transfers ?st1 fileId = Some (partial_transfer ?md n pl (insert j D))" by simp
      have su: "suspended ?st1 = []" by simp
      have "set (reconstructed (snd (run_chat ?st1 (schedule fileId mid ts pl sch)))) = {?c}"
        using strict sub cover tr su by (rule Cons.IH)
      then show ?thesis
        using step1 Some
        by (simp only: schedule_Some run_chat_Cons snd_conv fst_conv reconstructed_append) simp
    qed
  qed
qed

text \<open>Handled one by one, the chunks reconstruct the file exactly once.\<close>

lemma run_chat_one_by_one_absent:
  assumes "fileId \<noteq> []"
  shows "transfers st fileId = None \<Longrightarrow> suspended st = [] \<Longrightarrow>
     run_chat st (schedule fileId mid ts pl (one_by_one order)) = (st, [])"
proof (induction order)
  case Nil
  then show ?case by (simp add: run_chat_Nil)
next
  case (Cons j order)
  have a: "chat_step st (Deliver (chunk_of fileId mid ts pl j)) = (st, [])"
    using assms Cons.prems(1) by (rule chat_step_chunk_absent)
  have b: "chat_step st Resume = (st, [])"
    using Cons.prems(2) by (rule chat_step_Resume_idle)
  show ?case
    using Cons.IH [OF Cons.prems] a b
    by (simp only: one_by_one_Cons schedule_Some schedule_None run_chat_Cons fst_conv snd_conv) simp
qed

lemma run_chat_one_by_one:
  assumes "fileId \<noteq> []"
  shows "D \<subset> {0..<n} \<Longrightarrow> set order \<subseteq> {0..<n} \<Longrightarrow> D \<union> set order = {0..<n} \<Longrightarrow>
     transfers st fileId = Some (partial_transfer (FileMetaData name sz mt n pv) n pl D) \<Longrightarrow>
     suspended st = [] \<Longrightarrow>
     reconstructed (snd (run_chat st (schedule fileId mid ts pl (one_by_one order))))
       = [concat (map (chunk_bytes pl) [0..<n])]"
proof (induction order arbitrary: st D)
  case Nil
  then show ?case by (auto simp: run_chat_Nil)
next
  case (Cons j order)
  let ?md = "FileMetaData name sz mt n pv"
  let ?c = "concat (map (chunk_bytes pl) [0..<n])"
  have j: "j < n" and sub: "set order \<subseteq> {0..<n}" using Cons.prems(2) by simp_all
  have subD: "D \<subseteq> {0..<n}" using Cons.prems(1) by auto
  have step: "chat_step st (Deliver (chunk_of fileId mid ts pl j)) =
     (\<lparr>transfers = (transfers st)(fileId \<mapsto> partial_transfer ?md n pl (insert j D)),
       suspended = suspended st @ (if insert j D = {0..<n} then [fileId] else [])\<rparr>,
      if insert j D = {0..<n}
      then [FileReceived fileId ?md ?c (ts j)]
      else [])"
    using assms subD j Cons.prems(4) by (rule chat_step_chunk_partial)
  show ?case
  proof (cases "insert j D = {0..<n}")
    case True
    let ?st1 = "\<lparr>transfers = (transfers st)(fileId \<mapsto> partial_transfer ?md n pl {0..<n}),
                  suspended = [fileId]\<rparr>"
    let ?st2 = "\<lparr>transfers = (transfers st)(fileId := None), suspended = []\<rparr>"
    have step1: "chat_step st (Deliver (chunk_of fileId mid ts pl j)) =
                   (?st1, [FileReceived fileId ?md ?c (ts j)])"
      using step True Cons.prems(5) by simp
    have step2: "chat_step ?st1 Resume = (?st2, [FileShown fileId])"
      by (simp add: chat_step.simps)
    have gone: "transfers ?st2 fileId = None" and idle: "suspended ?st2 = []" by simp_all
    have rest: "run_chat ?st2 (schedule fileId mid ts pl (one_by_one order)) = (?st2, [])"
      using assms gone idle by (rule run_chat_one_by_one_absent)
    show ?thesis
      using step1 step2 rest
      by (simp only: one_by_one_Cons schedule_Some schedule_None run_chat_Cons fst_conv snd_conv
            reconstructed_append) simp
  next
    case False
    let ?st1 = "\<lparr>transfers = (transfers st)(fileId \<mapsto> partial_transfer ?md n pl (insert j D)),
                  suspended = []\<rparr>"
    have step1: "chat_step st (Deliver (chunk_of fileId mid ts pl j)) = (?st1, [])"
      using step False Cons.prems(5) by simp
    have step2: "chat_step ?st1 Resume = (?st1, [])" by (simp add: chat_step.simps)
    have strict: "insert j D \<subset> {0..<n}" using False subD j by auto
    have cover: "insert j D \<union> set order = {0..<n}" using Cons.prems(3) by auto
    have tr: "transfers ?st1 fileId = Some (partial_transfer ?md n pl (insert j D))" by simp
    have su: "suspended ?st1 = []" by simp
    have "reconstructed (snd (run_chat ?st1 (schedule fileId mid ts pl (one_by_one order)))) = [?c]"
      using strict sub cover tr su by (rule Cons.IH)
    then show ?thesis
      using step1 step2
      by (simp only: one_by_one_Cons schedule_Some schedule_None run_chat_Cons fst_conv snd_conv
            reconstructed_append) simp
  qed
qed

text \<open>
  While the chunks of the transfer arrive, its entry is either gone or the transfer of
  some set of indices below \<open>n\<close>.
\<close>

lemma run_chat_invariant:
  assumes "fileId \<noteq> []"
  shows "arrivals sch \<subseteq> {0..<n} \<Longrightarrow>
     transfers st fileId = None \<or>
       (\<exists>D. D \<subseteq> {0..<n} \<and>
            transfers st fileId = Some (partial_transfer (FileMetaData name sz mt n pv) n pl D)) \<Longrightarrow>
     transfers (fst (run_chat st (schedule fileId mid ts pl sch))) fileId = None \<or>
       (\<exists>D. D \<subseteq> {0..<n} \<and>
            transfers (fst (run_chat st (schedule fileId mid ts pl sch))) fileId
              = Some (partial_transfer (FileMetaData name sz mt n pv) n pl D))"
proof (induction sch arbitrary: st)
  case Nil
  then show ?case by (simp add: run_chat_Nil)
next
  case (Cons x sch)
  let ?md = "FileMetaData name sz mt n pv"
  show ?case
  proof (cases x)
    case None
    let ?st1 = "fst (chat_step st Resume)"
    have inv: "transfers ?st1 fileId = None \<or>
         (\<exists>D. D \<subseteq> {0..<n} \<and> transfers ?st1 fileId = Some (partial_transfer ?md n pl D))"
      using chat_step_Resume_transfers [of st fileId]
    proof
      assume "transfers ?st1 fileId = None"
      then show ?thesis by (rule disjI1)
    next
      assume same: "transfers ?st1 fileId = transfers st fileId"
      show ?thesis using Cons.prems(2) unfolding same .
    qed
    have sub: "arrivals sch \<subseteq> {0..<n}" using Cons.prems(1) None by simp
    show ?thesis
      using Cons.IH [of ?st1, OF sub inv] None
      by (simp only: schedule_None run_chat_Cons fst_conv)
  next
    case (Some j)
    have j: "j < n" and sub: "arrivals sch \<subseteq> {0..<n}" using Cons.prems(1) Some by simp_all
    let ?st1 = "fst (chat_step st (Deliver (chunk_of fileId mid ts pl j)))"
    have inv: "transfers ?st1 fileId = None \<or>
         (\<exists>D. D \<subseteq> {0..<n} \<and> transfers ?st1 fileId = Some (partial_transfer ?md n pl D))"
    proof (cases "transfers st fileId")
      case None
      have "chat_step st (Deliver (chunk_of fileId mid ts pl j)) = (st, [])"
        using assms None by (rule chat_step_chunk_absent)
      then show ?thesis using None by (simp only: fst_conv) simp
    next
      case (Some ft)
      then obtain D where D: "D \<subseteq> {0..<n}"
          "transfers st fileId = Some (partial_transfer ?md n pl D)"
        using Cons.prems(2) by auto
      have "transfers ?st1 fileId = Some (partial_transfer ?md n pl (insert j D))"
        using chat_step_chunk_partial [where st = st and mid = mid and ts = ts, OF assms D(1) j D(2)]
        by (simp only: fst_conv) simp
      moreover have "insert j D \<subseteq> {0..<n}" using D(1) j by auto
      ultimately show ?thesis by blast
    qed
    show ?thesis
      using Cons.IH [of ?st1, OF sub inv] Some
      by (simp only: schedule_Some run_chat_Cons fst_conv)
  qed
qed

text \<open>
  With the empty file id every chunk envelope takes the metadata branch, since the
  empty string is falsy: nothing is ever reconstructed and no call is suspended.
\<close>

lemma run_chat_empty_id:
  "suspended st = [] \<Longrightarrow>
   (case transfers st [] of None \<Rightarrow> True | Some ft \<Rightarrow> receivedCount ft = 0) \<Longrightarrow>
     snd (run_chat st (schedule [] mid ts pl sch)) = [] \<and>
     (case transfers (fst (run_chat st (schedule [] mid ts pl sch))) [] of
        None \<Rightarrow> True | Some ft \<Rightarrow> receivedCount ft = 0)"
proof (induction sch arbitrary: st)
  case Nil
  then show ?case by (simp add: run_chat_Nil)
next
  case (Cons x sch)
  show ?case
  proof (cases x)
    case None
    have step: "chat_step st Resume = (st, [])"
      using Cons.prems(1) by (rule chat_step_Resume_idle)
    show ?thesis
      using Cons.IH [OF Cons.prems] step None
      by (simp only: schedule_None run_chat_Cons fst_conv snd_conv) simp
  next
    case (Some j)
    let ?st1 = "\<lparr>transfers = on_metadata (transfers st) (chunk_of [] mid ts pl j), suspended = []\<rparr>"
    have step: "chat_step st (Deliver (chunk_of [] mid ts pl j)) = (?st1, [])"
      using Cons.prems(1) by (simp add: chat_step.simps chat_handler_def chunk_of_def)
    have idle: "suspended ?st1 = []" by simp
    have inv: "(case transfers ?st1 [] of None \<Rightarrow> True | Some ft \<Rightarrow> receivedCount ft = 0)"
      using Cons.prems(2) by (simp add: on_metadata_def split: option.splits)
    show ?thesis
      using Cons.IH [of ?st1, OF idle inv] step Some
      by (simp only: schedule_Some run_chat_Cons fst_conv snd_conv) simp
  qed
qed

text \<open>With no chunk declared, nothing arrives and a \<open>Resume\<close> finds no suspended call.\<close>

lemma run_chat_no_arrivals:
  "arrivals sch = {} \<Longrightarrow> suspended st = [] \<Longrightarrow>
     run_chat st (schedule fileId mid ts pl sch) = (st, [])"
proof (induction sch)
  case Nil
  then show ?case by (simp add: run_chat_Nil)
next
  case (Cons x sch)
  show ?case
  proof (cases x)
    case None
    have step: "chat_step st Resume = (st, [])"
      using Cons.prems(2) by (rule chat_step_Resume_idle)
    have "arrivals sch = {}" using Cons.prems(1) None by simp
    then have "run_chat st (schedule fileId mid ts pl sch) = (st, [])"
      using Cons.prems(2) by (rule Cons.IH)
    then show ?thesis
      using step None
      by (simp only: schedule_None run_chat_Cons fst_conv snd_conv) simp
  next
    case (Some j)
    then show ?thesis using Cons.prems(1) by simp
  qed
qed

text \<open>
  C1. A metadata envelope with the file id \<open>fileId\<close> that declares \<open>n\<close> chunks arrives
  while no call of the handler is suspended. The chunk envelopes follow; every index
  below \<open>n\<close> arrives once or more often and no other index arrives: any permutation,
  with any duplicates.

  When the envelopes are handled one by one in the order \<open>order\<close>, the files
  reconstructed are the same as for the order \<open>0, ..., n - 1\<close>: one file, the slots
  concatenated in index order (no file when \<open>n = 0\<close>, or when the file id is the empty
  string, which no chunk envelope can refer to). When the arrivals interleave in any way
  with the continuations of suspended calls, as listed by \<open>sch\<close>, every file reconstructed
  still has these bytes and, unless there is none in order either, there is one. After
  every prefix of the deliveries the count of the transfer is at most \<open>n\<close>. Storing a
  chunk a second time changes neither the slot nor the count.
\<close>

theorem file_reassembly_order_independent:
  assumes "arrivals sch = {0..<n}" and "set order = {0..<n}" and "suspended st0 = []"
  shows
    "reconstructed (snd (run_chat st0 (Deliver (metadata_of fileId t name sz mt n pv)
        # schedule fileId mid ts pl (one_by_one order))))
       = reconstructed (snd (run_chat st0 (Deliver (metadata_of fileId t name sz mt n pv)
        # schedule fileId mid ts pl (one_by_one [0..<n]))))
     \<and> reconstructed (snd (run_chat st0 (Deliver (metadata_of fileId t name sz mt n pv)
        # schedule fileId mid ts pl (one_by_one [0..<n]))))
       = (if fileId = [] \<or> n = 0 then [] else [concat (map (chunk_bytes pl) [0..<n])])
     \<and> set (reconstructed (snd (run_chat st0 (Deliver (metadata_of fileId t name sz mt n pv)
        # schedule fileId mid ts pl sch))))
       = set (reconstructed (snd (run_chat st0 (Deliver (metadata_of fileId t name sz mt n pv)
        # schedule fileId mid ts pl (one_by_one [0..<n])))))
     \<and> (\<forall>k. case transfers (fst (run_chat st0 (Deliver (metadata_of fileId t name sz mt n pv)
                  # schedule fileId mid ts pl (take k sch)))) fileId of
               None \<Rightarrow> True
             | Some ft \<Rightarrow> receivedCount ft \<le> n)
     \<and> (\<forall>ft idx b b'. store_chunk (store_chunk ft idx b) idx b' = store_chunk ft idx b)"
proof -
  let ?md = "FileMetaData name sz mt n pv"
  let ?meta = "Deliver (metadata_of fileId t name sz mt n pv)"
  let ?s1 = "\<lparr>transfers = (transfers st0)(fileId \<mapsto> partial_transfer ?md n pl {}), suspended = []\<rparr>"
  let ?c = "concat (map (chunk_bytes pl) [0..<n])"
  have meta: "chat_step st0 ?meta = (?s1, [])"
    using assms(3) chat_handler_metadata [of "transfers st0" fileId t name sz mt n pv pl]
    by (simp add: chat_step.simps)
  have run: "run_chat st0 (?meta # es) = (fst (run_chat ?s1 es), snd (run_chat ?s1 es))" for es
    using meta by (simp add: run_chat_Cons)
  have s1: "transfers ?s1 fileId = Some (partial_transfer ?md n pl {})" by simp
  have idle: "suspended ?s1 = []" by simp
  have count0: "receivedCount (partial_transfer ?md n pl {}) = 0"
    by (simp add: partial_transfer_def)
  have empty_id: "snd (run_chat ?s1 (schedule [] mid ts pl sc)) = [] \<and>
       (case transfers (fst (run_chat ?s1 (schedule [] mid ts pl sc))) [] of
          None \<Rightarrow> True | Some ft \<Rightarrow> receivedCount ft = 0)"
    if "fileId = []" for sc
    using run_chat_empty_id [of ?s1 mid ts pl sc] that count0 by simp
  have seq: "reconstructed (snd (run_chat ?s1 (schedule fileId mid ts pl (one_by_one js))))
               = (if fileId = [] \<or> n = 0 then [] else [?c])"
    if js: "set js = {0..<n}" for js
  proof (cases "fileId = []")
    case True
    then show ?thesis using empty_id [OF True, of "one_by_one js"] by simp
  next
    case False
    show ?thesis
    proof (cases "n = 0")
      case True
      then have "js = []" using js by simp
      then show ?thesis using True by (simp add: run_chat_Nil)
    next
      case n: False
      have strict: "{} \<subset> {0..<n}" using n by auto
      have sub: "set js \<subseteq> {0..<n}" and cover: "{} \<union> set js = {0..<n}" using js by auto
      show ?thesis
        using run_chat_one_by_one [where st = "?s1" and mid = mid and ts = ts,
                OF False strict sub cover s1 idle] False n
        by simp
    qed
  qed
  have any: "set (reconstructed (snd (run_chat ?s1 (schedule fileId mid ts pl sch))))
               = set (if fileId = [] \<or> n = 0 then [] else [?c])"
  proof (cases "fileId = []")
    case True
    then show ?thesis using empty_id [OF True, of sch] by simp
  next
    case False
    show ?thesis
    proof (cases "n = 0")
      case True
      then have "arrivals sch = {}" using assms(1) by simp
      then have "run_chat ?s1 (schedule fileId mid ts pl sch) = (?s1, [])"
        using idle by (rule run_chat_no_arrivals)
      then show ?thesis using True by simp
    next
      case n: False
      have strict: "{} \<subset> {0..<n}" using n by auto
      have sub: "arrivals sch \<subseteq> {0..<n}" and cover: "{} \<union> arrivals sch = {0..<n}"
        using assms(1) by auto
      show ?thesis
        using run_chat_progress [where st = "?s1" and mid = mid and ts = ts,
                OF False strict sub cover s1 idle] False n
        by simp
    qed
  qed
  have upt: "set [0..<n] = {0..<n}" by simp
  have bound: "case transfers (fst (run_chat ?s1 (schedule fileId mid ts pl (take k sch)))) fileId of
                 None \<Rightarrow> True | Some ft \<Rightarrow> receivedCount ft \<le> n" for k
  proof (cases "fileId = []")
    case True
    have "case transfers (fst (run_chat ?s1 (schedule [] mid ts pl (take k sch)))) [] of
            None \<Rightarrow> True | Some ft \<Rightarrow> receivedCount ft = 0"
      using empty_id [OF True, of "take k sch"] by (rule conjunct2)
    then show ?thesis using True by (simp split: option.splits)
  next
    case False
    have sub: "arrivals (take k sch) \<subseteq> {0..<n}"
      using assms(1) arrivals_take [of k sch] by simp
    have inv: "transfers ?s1 fileId = None \<or>
        (\<exists>D. D \<subseteq> {0..<n} \<and> transfers ?s1 fileId = Some (partial_transfer ?md n pl D))"
      by auto
    let ?s' = "fst (run_chat ?s1 (schedule fileId mid ts pl (take k sch)))"
    have "transfers ?s' fileId = None \<or>
        (\<exists>D. D \<subseteq> {0..<n} \<and> transfers ?s' fileId = Some (partial_transfer ?md n pl D))"
      using run_chat_invariant [where st = "?s1" and mid = mid and ts = ts, OF False sub inv] .
    then show ?thesis
    proof
      assume "transfers ?s' fileId = None"
      then show ?thesis by simp
    next
      assume "\<exists>D. D \<subseteq> {0..<n} \<and> transfers ?s' fileId = Some (partial_transfer ?md n pl D)"
      then obtain D where D: "D \<subseteq> {0..<n}"
          "transfers ?s' fileId = Some (partial_transfer ?md n pl D)"
        by blast
      show ?thesis using D(2) receivedCount_partial_le [OF D(1), of ?md pl] by simp
    qed
  qed
  show ?thesis
    using seq [OF assms(2)] seq [OF upt] any bound store_chunk_duplicate
    by (simp only: run snd_conv fst_conv) simp
qed

text \<open>
  An instance with four chunks, chunk \<open>i\<close> carrying the one byte \<open>i\<close>. Handled one by
  one, the delivery \<open>2, 0, 3, 1\<close> followed by a second copy of chunk 2, and the delivery
  in order, both reconstruct the bytes \<open>0, 1, 2, 3\<close> once. When the second copy of chunk 2
  arrives while the call that completed the file is still suspended, every file
  reconstructed has these bytes.
\<close>

theorem file_reassembly_order_independent_witness:
  "arrivals [Some 2, Some 0, None, Some 3, Some 1, Some 2, None, None] = {0..<4}
   \<and> set [2, 0, 3, 1, 2] = {0..<4::nat}
   \<and> reconstructed (snd (run_chat \<lparr>transfers = Map.empty, suspended = []\<rparr>
         (Deliver (metadata_of ''f1'' 0 ''a.bin'' 4 ''application/octet-stream'' 4 None)
            # schedule ''f1'' (\<lambda>i. ''c'') (\<lambda>i. 0) (\<lambda>i. [i]) (one_by_one [2, 0, 3, 1, 2]))))
       = [[0, 1, 2, 3]]
   \<and> reconstructed (snd (run_chat \<lparr>transfers = Map.empty, suspended = []\<rparr>
         (Deliver (metadata_of ''f1'' 0 ''a.bin'' 4 ''application/octet-stream'' 4 None)
            # schedule ''f1'' (\<lambda>i. ''c'') (\<lambda>i. 0) (\<lambda>i. [i]) (one_by_one [0..<4]))))
       = [[0, 1, 2, 3]]
   \<and> set (reconstructed (snd (run_chat \<lparr>transfers = Map.empty, suspended = []\<rparr>
         (Deliver (metadata_of ''f1'' 0 ''a.bin'' 4 ''application/octet-stream'' 4 None)
            # schedule ''f1'' (\<lambda>i. ''c'') (\<lambda>i. 0) (\<lambda>i. [i])
                [Some 2, Some 0, None, Some 3, Some 1, Some 2, None, None]))))
       = {[0, 1, 2, 3]}"
  (is "?H1 \<and> ?H2 \<and> ?A = ?v \<and> ?B = ?v \<and> ?C = ?V")
proof -
  have h1: "?H1" by (auto simp: arrivals_def)
  have h2: "?H2" by auto
  have h3: "suspended \<lparr>transfers = Map.empty, suspended = []\<rparr> = []" by simp
  have bytes: "(if ''f1'' = [] \<or> (4::nat) = 0 then []
                else [concat (map (chunk_bytes (\<lambda>i. [i])) [0..<4])]) = ?v"
    by (simp add: chunk_bytes_def to_uint8_def upt_rec)
  note inst = file_reassembly_order_independent [OF h1 h2 h3, of "''f1''" 0 "''a.bin''" 4
        "''application/octet-stream''" None "\<lambda>i. ''c''" "\<lambda>i. 0" "\<lambda>i. [i]"]
  have ab: "?A = ?B" using inst by (rule conjunct1)
  have "?B = (if ''f1'' = [] \<or> (4::nat) = 0 then []
                else [concat (map (chunk_bytes (\<lambda>i. [i])) [0..<4])])"
    using inst by (rule conjunct2 [THEN conjunct1])
  then have b: "?B = ?v" using bytes by (rule trans)
  have a: "?A = ?v" using ab b by (rule trans)
  have "?C = set ?B"
    using inst by (rule conjunct2 [THEN conjunct2, THEN conjunct1])
  then have c: "?C = ?V" by (simp only: b) simp
  show ?thesis using h1 h2 a b c by (intro conjI)
qed

text \<open>
  A duplicate that arrives during the \<open>await\<close> of the call that completed the file
  finds the transfer still in the map, complete: the file is reconstructed a second
  time, with the same bytes.
\<close>

lemma duplicate_during_await_reconstructs_twice:
  "reconstructed (snd (run_chat \<lparr>transfers = Map.empty, suspended = []\<rparr>
         (Deliver (metadata_of ''f1'' 0 ''a.bin'' 2 ''application/octet-stream'' 2 None)
            # schedule ''f1'' (\<lambda>i. ''c'') (\<lambda>i. 0) (\<lambda>i. [i])
                [Some 1, Some 0, Some 1, None, None])))
       = [[0, 1], [0, 1]]"
  by (simp add: run_chat.simps chat_step.simps chat_handler_def on_chunk_def on_metadata_def
        metadata_of_def chunk_of_def schedule_def store_chunk_def to_uint8_def completeFile_def
        Let_def numeral_2_eq_2)

end
